theory Spec2Isabelle
  imports Main "HOL-Library.Word" "HOL-Library.AList"
begin

section \<open>Shell results and JavaScript string helpers\<close>

text \<open>
  A shell function either returns a status to its caller (\<open>return n\<close>) or terminates
  the whole script (\<open>exit n\<close>) after having printed a message.
\<close>

datatype sh_result = Returned nat | Exited nat string

fun is_exit :: "sh_result \<Rightarrow> bool" where
  "is_exit (Exited n msg) = True"
| "is_exit (Returned n) = False"

text \<open>\<open>Array.prototype.join\<close> on an array of strings.\<close>

fun join :: "string \<Rightarrow> string list \<Rightarrow> string" where
  "join sep [] = []"
| "join sep [x] = x"
| "join sep (x # y # ys) = x @ sep @ join sep (y # ys)"

section \<open>The generated helper \<open>is_kernel_version_lower\<close>\<close>

text \<open>
  \<open>createIsKernelVersionLowerFunc\<close> emits a bash function. Its body is embedded here
  statement by statement.

  \<open>local IFS=$3; read -r -a arr <<< "$1"\<close> splits one line into fields. For the
  delimiters the generated script passes (\<open>".-"\<close>, no white space among them) every
  delimiter character ends the current field, so that two adjacent delimiters enclose an
  empty field and a delimiter at the very end adds none.
\<close>

fun read_fields :: "string \<Rightarrow> string \<Rightarrow> string \<Rightarrow> string list" where
  "read_fields ifs cur [] = (if cur = [] then [] else [cur])"
| "read_fields ifs cur (c # cs) =
     (if c \<in> set ifs then cur # read_fields ifs [] cs
      else read_fields ifs (cur @ [c]) cs)"

definition read_array :: "string \<Rightarrow> string \<Rightarrow> string list" where
  "read_array ifs line = read_fields ifs [] line"

text \<open>The test \<open>$x =~ ^[0-9]+$\<close>: a non-empty run of decimal digits.\<close>

definition is_digit :: "char \<Rightarrow> bool" where
  "is_digit c = (of_char c \<ge> (48::nat) \<and> of_char c \<le> (57::nat))"

definition is_number :: "string \<Rightarrow> bool" where
  "is_number s = (s \<noteq> [] \<and> list_all is_digit s)"

text \<open>
  The operands of \<open>-lt\<close> inside \<open>[[ ]]\<close> are arithmetic constants: a digit string with
  a leading zero is octal (and invalid when it holds an 8 or a 9, which makes the test
  fail), any other digit string is decimal, and the value wraps into a signed 64-bit
  integer.
\<close>

definition digit_val :: "char \<Rightarrow> nat" where
  "digit_val c = of_char c - 48"

fun digits_val :: "nat \<Rightarrow> nat \<Rightarrow> string \<Rightarrow> nat" where
  "digits_val base acc [] = acc"
| "digits_val base acc (c # cs) = digits_val base (acc * base + digit_val c) cs"

definition arith_value :: "string \<Rightarrow> int option" where
  "arith_value s =
     (if length s > 1 \<and> hd s = CHR ''0'' then
        (if list_all (\<lambda>c. digit_val c < 8) s
         then Some (sint (word_of_nat (digits_val 8 0 s) :: 64 word))
         else None)
      else Some (sint (word_of_nat (digits_val 10 0 s) :: 64 word)))"

definition arith_lt :: "string \<Rightarrow> string \<Rightarrow> bool" where
  "arith_lt l r =
     (case arith_value l of
        None \<Rightarrow> False
      | Some a \<Rightarrow> (case arith_value r of None \<Rightarrow> False | Some b \<Rightarrow> a < b))"

text \<open>
  The \<open>for i in ${!lhs_array[@]}\<close> loop. It runs after the length check, so both
  arrays have the same indices; the first index at which both components are numbers
  and the left one is smaller returns 0, and the loop falling through returns 1.
\<close>

fun compare_components :: "string list \<Rightarrow> string list \<Rightarrow> sh_result" where
  "compare_components (l # ls) (r # rs) =
     (if is_number l \<and> is_number r \<and> arith_lt l r then Returned 0
      else compare_components ls rs)"
| "compare_components ls rs = Returned 1"

definition is_kernel_version_lower :: "string \<Rightarrow> string \<Rightarrow> string \<Rightarrow> sh_result" where
  "is_kernel_version_lower a1 a2 a3 =
     (let lhs_array = read_array a3 a1;
          rhs_array = read_array a3 a2
      in if length lhs_array \<noteq> length rhs_array
         then Exited 1 (''ERROR: Kernel version lengths do not match: '' @ a1 @ '' '' @ a2)
         else compare_components lhs_array rhs_array)"

text \<open>
  The comparison that the description of the helper asks for, written from its words
  and used only to compare with the code: walk both component lists from the left, skip
  the positions where the two components are equal numbers, and let the first position
  where two numbers differ decide.
\<close>

fun first_difference_lower :: "string list \<Rightarrow> string list \<Rightarrow> bool" where
  "first_difference_lower (l # ls) (r # rs) =
     (if is_number l \<and> is_number r \<and> arith_value l \<noteq> arith_value r
      then arith_lt l r
      else first_difference_lower ls rs)"
| "first_difference_lower ls rs = False"

section \<open>\<open>path.posix.normalize\<close>\<close>

text \<open>
  Both mount operations pass the mount location through \<open>path.posix.normalize\<close> of
  the Node.js runtime. The function is embedded after the runtime's \<open>lib/path.js\<close>:
  \<open>normalizeString\<close> scans the path once and keeps the result built so far (\<open>res\<close>),
  the length of its last segment, and the count of dots of the segment being read
  (\<open>-1\<close> once the segment holds anything but dots). Where the original keeps the index
  \<open>lastSlash\<close> and slices the path, the embedding keeps the slice itself: \<open>seg\<close> is
  \<open>path.slice(lastSlash + 1, i)\<close>, so \<open>lastSlash = i - 1\<close> reads \<open>seg = []\<close>.
\<close>

record norm_state =
  res :: string
  lastSegmentLength :: int
  seg :: string
  dots :: int

text \<open>\<open>String.prototype.lastIndexOf\<close> for a single character; \<open>-1\<close> when absent.\<close>

fun lastIndexOf :: "string \<Rightarrow> char \<Rightarrow> int" where
  "lastIndexOf [] c = - 1"
| "lastIndexOf (x # xs) c =
     (if 0 \<le> lastIndexOf xs c then lastIndexOf xs c + 1
      else if x = c then 0 else - 1)"

definition next_segment :: "norm_state \<Rightarrow> norm_state" where
  "next_segment s = s\<lparr>seg := [], dots := 0\<rparr>"

definition ends_with_dotdot :: "norm_state \<Rightarrow> bool" where
  "ends_with_dotdot s =
     (2 \<le> length (res s) \<and> lastSegmentLength s = 2 \<and>
      last (res s) = CHR ''.'' \<and> last (butlast (res s)) = CHR ''.'')"

text \<open>The body of the loop for a path separator (or for the end of the path).\<close>

definition on_separator :: "bool \<Rightarrow> norm_state \<Rightarrow> norm_state" where
  "on_separator allowAboveRoot s =
     (if seg s = [] \<or> dots s = 1 then next_segment s
      else if dots s = 2 then
        (if \<not> ends_with_dotdot s \<and> 2 < length (res s) then
           (if lastIndexOf (res s) (CHR ''/'') = - 1
            then next_segment (s\<lparr>res := [], lastSegmentLength := 0\<rparr>)
            else
              (let r = take (nat (lastIndexOf (res s) (CHR ''/''))) (res s)
               in next_segment
                    (s\<lparr>res := r,
                       lastSegmentLength := int (length r) - 1 - lastIndexOf r (CHR ''/'')\<rparr>)))
         else if \<not> ends_with_dotdot s \<and> res s \<noteq> [] then
           next_segment (s\<lparr>res := [], lastSegmentLength := 0\<rparr>)
         else if allowAboveRoot then
           next_segment
             (s\<lparr>res := (if res s \<noteq> [] then res s @ ''/..'' else ''..''),
                lastSegmentLength := 2\<rparr>)
         else next_segment s)
      else
        next_segment
          (s\<lparr>res := (if res s \<noteq> [] then res s @ ''/'' @ seg s else seg s),
             lastSegmentLength := int (length (seg s))\<rparr>))"

definition on_char :: "bool \<Rightarrow> norm_state \<Rightarrow> char \<Rightarrow> norm_state" where
  "on_char allowAboveRoot s c =
     (if c = CHR ''/'' then on_separator allowAboveRoot s
      else if c = CHR ''.'' \<and> dots s \<noteq> - 1 then s\<lparr>seg := seg s @ [c], dots := dots s + 1\<rparr>
      else s\<lparr>seg := seg s @ [c], dots := - 1\<rparr>)"

fun scan :: "bool \<Rightarrow> norm_state \<Rightarrow> string \<Rightarrow> norm_state" where
  "scan allowAboveRoot s [] = s"
| "scan allowAboveRoot s (c # cs) = scan allowAboveRoot (on_char allowAboveRoot s c) cs"

definition norm_init :: norm_state where
  "norm_init = \<lparr>res = [], lastSegmentLength = 0, seg = [], dots = 0\<rparr>"

text \<open>
  The loop runs one step past the last character: a path that ends in a separator
  stops there, any other path is closed by one more separator step.
\<close>

definition normalizeString :: "string \<Rightarrow> bool \<Rightarrow> string" where
  "normalizeString path allowAboveRoot =
     (let s = scan allowAboveRoot norm_init path
      in if path \<noteq> [] \<and> last path = CHR ''/'' then res s
         else res (on_separator allowAboveRoot s))"

definition posix_normalize :: "string \<Rightarrow> string" where
  "posix_normalize path =
     (if path = [] then ''.''
      else
        (let isAbsolute = (hd path = CHR ''/'');
             trailingSeparator = (last path = CHR ''/'');
             p = normalizeString path (\<not> isAbsolute)
         in if p = [] then (if isAbsolute then ''/'' else if trailingSeparator then ''./'' else ''.'')
            else
              (let p' = (if trailingSeparator then p @ ''/'' else p)
               in if isAbsolute then CHR ''/'' # p' else p')))"

text \<open>No two path separators next to each other.\<close>

fun no_double_sep :: "string \<Rightarrow> bool" where
  "no_double_sep (a # b # cs) = ((a \<noteq> CHR ''/'' \<or> b \<noteq> CHR ''/'') \<and> no_double_sep (b # cs))"
| "no_double_sep cs = True"

section \<open>Constructs, assets and boot scripts\<close>

text \<open>
  The deployment engine is an external library; the operations the sources call on it
  are modelled by what they do to an explicit \<open>world\<close>. Objects are identified by a
  reference (a number): two handles are the same object when their references are
  equal.
  \<^item> \<open>children w n\<close> maps the identifiers of the children of construct \<open>n\<close> to the
    child objects (\<open>node.tryFindChild\<close>);
  \<^item> \<open>stack_of w n\<close> is the stack that contains construct \<open>n\<close> (\<open>Stack.of\<close>);
  \<^item> \<open>next_ref\<close> is the reference that the next new object gets;
  \<^item> \<open>created_assets\<close> logs every \<open>new Asset(scope, id, props)\<close>, in order;
  \<^item> \<open>s3_location\<close> gives the bucket name and object key of an asset;
  \<^item> \<open>ingress\<close> holds the network rules added by \<open>connections.allowTo\<close> (source
    group, destination group, port);
  \<^item> \<open>read_grants\<close> holds the grants of \<open>asset.grantRead\<close>.
\<close>

record world =
  children :: "nat \<Rightarrow> string \<rightharpoonup> nat"
  stack_of :: "nat \<Rightarrow> nat"
  next_ref :: nat
  created_assets :: "(nat \<times> nat \<times> string \<times> string \<times> string list) list"
  s3_location :: "nat \<Rightarrow> string \<times> string"
  ingress :: "(string \<times> string \<times> nat) list"
  read_grants :: "(nat \<times> string) list"

text \<open>
  An operation either throws, with the message of the \<open>Error\<close>, or completes with
  a value. Both carry the state as it is at that moment: what was mutated before a
  \<open>throw\<close> stays mutated.
\<close>

datatype ('r, 's) outcome = Thrown string 's | Completed 'r 's

text \<open>
  The boot-script buffer (\<open>UserData\<close>) records the calls made on it, in order: one
  entry for each line given to \<open>addCommands\<close>, one for each \<open>addS3DownloadCommand\<close>
  (bucket, key), \<open>addExecuteFileCommand\<close> (file path, arguments) and
  \<open>addSignalOnExitCommand\<close>, and one for each block of commands that a construct
  outside these sources appends (the log agent's set-up, the block volume's mount).
\<close>

datatype BlockVolumeFormat = EXT3 | EXT4 | XFS

datatype boot_command =
    Command string
  | S3Download string string
  | ExecuteFile string string
  | SignalOnExit
  | CloudWatchAgentSetup string
  | BlockVolumeMount string BlockVolumeFormat

definition addCommands :: "string list \<Rightarrow> boot_command list \<Rightarrow> boot_command list" where
  "addCommands cmds ud = ud @ map Command cmds"

text \<open>\<open>addS3DownloadCommand\<close> returns the local path of the download, \<open>/tmp/<key>\<close>.\<close>

definition addS3DownloadCommand ::
  "string \<Rightarrow> string \<Rightarrow> boot_command list \<Rightarrow> string \<times> boot_command list" where
  "addS3DownloadCommand bucket bucketKey ud = (''/tmp/'' @ bucketKey, ud @ [S3Download bucket bucketKey])"

definition addExecuteFileCommand :: "string \<Rightarrow> string \<Rightarrow> boot_command list \<Rightarrow> boot_command list" where
  "addExecuteFileCommand filePath arguments ud = ud @ [ExecuteFile filePath arguments]"

definition tryFindChild :: "world \<Rightarrow> nat \<Rightarrow> string \<Rightarrow> nat option" where
  "tryFindChild w node ident = children w node ident"

text \<open>
  \<open>new Asset(scope, id, {path, exclude})\<close>: a fresh object, registered as child \<open>id\<close>
  of \<open>scope\<close>.
\<close>

definition new_Asset :: "nat \<Rightarrow> string \<Rightarrow> string \<Rightarrow> string list \<Rightarrow> world \<Rightarrow> nat \<times> world" where
  "new_Asset scope ident dir exclude w =
     (next_ref w,
      w\<lparr>children := (children w)(scope := (children w scope)(ident \<mapsto> next_ref w)),
        next_ref := Suc (next_ref w),
        created_assets := created_assets w @ [(next_ref w, scope, ident, dir, exclude)]\<rparr>)"

text \<open>\<open>connections.allowTo\<close> adds a rule once: adding it again changes nothing.\<close>

definition allowTo :: "string \<Rightarrow> string \<Rightarrow> nat \<Rightarrow> world \<Rightarrow> world" where
  "allowTo source dest p w =
     (if (source, dest, p) \<in> set (ingress w) then w
      else w\<lparr>ingress := ingress w @ [(source, dest, p)]\<rparr>)"

definition grantRead :: "nat \<Rightarrow> string \<Rightarrow> world \<Rightarrow> world" where
  "grantRead asset grantee w = w\<lparr>read_grants := read_grants w @ [(asset, grantee)]\<rparr>"

section \<open>Mount points and permissions\<close>

datatype OperatingSystemType = LINUX | WINDOWS | UNKNOWN

datatype MountPermissions = READONLY | READWRITE

record LinuxMountPointProps =
  location :: string
  permissions :: "MountPermissions option"

text \<open>
  Modelled from the spec: \<open>MountPermissionsHelper.toLinuxMountOption\<close>, whose file
  \<open>mount-permissions-helper.ts\<close> is not among the sources. The specification gives
  "ReadWrite \<rightarrow> rw; ReadOnly \<rightarrow> r"; a mount point without permissions renders as
  \<open>rw\<close>, as the test \<open>defaults\<close> of \<open>mountable-nfs.test.ts\<close> expects.
\<close>

fun toLinuxMountOption :: "MountPermissions option \<Rightarrow> string" where
  "toLinuxMountOption (Some READWRITE) = ''rw''"
| "toLinuxMountOption (Some READONLY) = ''r''"
| "toLinuxMountOption None = ''rw''"

text \<open>
  The options token of both mount operations: the permission flag, then
  \<open>push(...extraMountOptions)\<close> when the property is set, then \<open>join(',')\<close>.
\<close>

definition mountOptions :: "MountPermissions option \<Rightarrow> string list option \<Rightarrow> string list" where
  "mountOptions perm extraMountOptions =
     (case extraMountOptions of
        None \<Rightarrow> [toLinuxMountOption perm]
      | Some extra \<Rightarrow> [toLinuxMountOption perm] @ extra)"

definition mountOptionsStr :: "MountPermissions option \<Rightarrow> string list option \<Rightarrow> string" where
  "mountOptionsStr perm extraMountOptions = join '','' (mountOptions perm extraMountOptions)"

record IMountingInstance =
  osType :: OperatingSystemType
  target_connections :: string
  target_grantPrincipal :: string
  target_userData :: "boot_command list"

section \<open>The NFS server instance\<close>

record NfsExport =
  client :: string
  nfsOptions :: "string list"

record Subnet =
  subnetId :: string
  availabilityZone :: string

text \<open>
  A JavaScript object literal is an ordered list of properties; writing a property
  that exists replaces its value in place, a new one goes to the end. The spread
  \<open>...o\<close> writes the properties of \<open>o\<close> in their order, and spreading
  \<open>undefined\<close> writes nothing.
\<close>

datatype js_value =
    Undefined
  | JBool bool
  | JStr string
  | JSize nat
  | JKey string
  | JFormat BlockVolumeFormat

type_synonym js_object = "(string \<times> js_value) list"

definition set_prop :: "string \<Rightarrow> js_value \<Rightarrow> js_object \<Rightarrow> js_object" where
  "set_prop k v obj = AList.update k v obj"

fun spread :: "js_object option \<Rightarrow> js_object \<Rightarrow> js_object" where
  "spread None obj = obj"
| "spread (Some []) obj = obj"
| "spread (Some ((k, v) # src)) obj = spread (Some src) (set_prop k v obj)"

definition get_prop :: "js_object \<Rightarrow> string \<Rightarrow> js_value" where
  "get_prop obj k = (case map_of obj k of None \<Rightarrow> Undefined | Some v \<Rightarrow> v)"

record NfsInstanceVolumeProps =
  vol_volume :: "string option"
  vol_volumeProps :: "js_object option"

record 'sel IVpc =
  vpcId :: string
  selectSubnets :: "'sel option \<Rightarrow> Subnet list"

record 'sel NfsInstanceProps =
  props_dnsZone :: string
  props_hostname :: string
  props_mount :: LinuxMountPointProps
  props_volume :: "NfsInstanceVolumeProps option"
  props_vpc :: "'sel IVpc"
  props_vpcSubnets :: "'sel option"
  props_instanceType :: "string option"
  props_keyName :: "string option"
  props_logGroupPrefix :: "string option"
  props_role :: "string option"
  props_securityGroup :: "string option"

record StaticPrivateIpServerProps =
  srv_subnets :: "Subnet list"
  srv_instanceType :: string
  srv_machineImage :: string
  srv_blockDevices :: "(string \<times> nat \<times> bool) list"
  srv_keyName :: "string option"
  srv_resourceSignalTimeout :: nat
  srv_role :: "string option"
  srv_securityGroup :: "string option"

text \<open>
  The resources a construction creates, in order. \<open>NfsInstanceNode\<close> is the
  construct itself (\<open>super(scope, id)\<close>); the others are the server, the DNS record,
  the volume, the log group, the log agent and the asset of the export script.
\<close>

datatype resource =
    NfsInstanceNode string
  | StaticPrivateIpServer StaticPrivateIpServerProps
  | ARecord string string string
  | Volume js_object
  | LogGroup string string
  | CloudWatchAgent nat
  | Asset string string

record NfsInstance =
  mount :: LinuxMountPointProps
  exports :: "NfsExport list"
  server :: StaticPrivateIpServerProps
  volume :: "string + js_object"
  port :: nat
  connections :: "string \<times> nat"
  fullHostname :: string
  userData :: "boot_command list"
  exportNfsDirectoryScriptPath :: string

definition DEFAULT_DEVICE_SIZE :: nat where
  "DEFAULT_DEVICE_SIZE = 20"

definition ROOT_DEVICE_SIZE :: nat where
  "ROOT_DEVICE_SIZE = 10"

definition CLOUDWATCH_LOG_FLUSH_INTERVAL :: nat where
  "CLOUDWATCH_LOG_FLUSH_INTERVAL = 15"

definition DEFAULT_LOG_GROUP_PREFIX :: string where
  "DEFAULT_LOG_GROUP_PREFIX = ''/renderfarm/''"

text \<open>The properties object given to \<open>new Volume\<close>.\<close>

definition new_volume_props :: "js_object option \<Rightarrow> Subnet \<Rightarrow> js_object" where
  "new_volume_props volumeProps subnet =
     set_prop ''encrypted'' (JBool True)
       (set_prop ''availabilityZone'' (JStr (availabilityZone subnet))
          (spread volumeProps
             (set_prop ''size'' (JSize DEFAULT_DEVICE_SIZE) [])))"

text \<open>
  \<open>props.volume?.volume === undefined && props.volume?.volumeProps?.fileSystemType\<close>
  selects the format of a new volume; every format is a non-empty string, hence truthy.
\<close>

definition volumeFormat_of :: "NfsInstanceVolumeProps option \<Rightarrow> BlockVolumeFormat" where
  "volumeFormat_of v =
     (case v of
        None \<Rightarrow> XFS
      | Some vp \<Rightarrow>
          (case vol_volume vp of
             Some existing \<Rightarrow> XFS
           | None \<Rightarrow>
               (case vol_volumeProps vp of
                  None \<Rightarrow> XFS
                | Some obj \<Rightarrow>
                    (case get_prop obj ''fileSystemType'' of JFormat f \<Rightarrow> f | _ \<Rightarrow> XFS))))"

definition configureNfsServer :: "boot_command list \<Rightarrow> boot_command list" where
  "configureNfsServer ud =
     addCommands
       [''sudo yum install -y nfs-utils nfs-utils-lib'',
        ''sudo service nfs start'',
        ''sudo chkconfig --level 35 nfs on''] ud"

text \<open>
  The constructor. \<open>JSON_stringify\<close> is the serialisation of a subnet selection by
  the runtime's \<open>JSON.stringify\<close>; interpolating \<open>undefined\<close> gives the word
  \<open>undefined\<close>. The address of the server and the location of the export script's
  asset are tokens that the deployment resolves, kept symbolic.
\<close>

definition NfsInstance_constructor ::
  "('sel \<Rightarrow> string) \<Rightarrow> string \<Rightarrow> 'sel NfsInstanceProps \<Rightarrow> resource list \<Rightarrow>
     (NfsInstance, resource list) outcome" where
  "NfsInstance_constructor JSON_stringify ident props rs =
     (let rs1 = rs @ [NfsInstanceNode ident];
          subnets = selectSubnets (props_vpc props) (props_vpcSubnets props)
      in if length subnets = 0 then
           Thrown
             (''Did not find any subnets matching '' @
              (case props_vpcSubnets props of
                 None \<Rightarrow> ''undefined''
               | Some sel \<Rightarrow> JSON_stringify sel) @
              ''. Please use a different selection.'') rs1
         else
           (let subnet = hd subnets;
                srv = \<lparr>srv_subnets = [subnet],
                       srv_instanceType =
                         (case props_instanceType props of None \<Rightarrow> ''m5.xlarge'' | Some t \<Rightarrow> t),
                       srv_machineImage = ''latestAmazonLinux(AMAZON_LINUX_2)'',
                       srv_blockDevices = [(''/dev/xvda'', ROOT_DEVICE_SIZE, True)],
                       srv_keyName = props_keyName props,
                       srv_resourceSignalTimeout = 5,
                       srv_role = props_role props,
                       srv_securityGroup = props_securityGroup props\<rparr>;
                rs2 = rs1 @ [StaticPrivateIpServer srv];
                rs3 = rs2 @ [ARecord ''${Server.privateIpAddress}'' (props_dnsZone props)
                               (props_hostname props)];
                existing = (case props_volume props of None \<Rightarrow> None | Some v \<Rightarrow> vol_volume v);
                volumeProps =
                  (case props_volume props of None \<Rightarrow> None | Some v \<Rightarrow> vol_volumeProps v);
                vol = (case existing of
                         Some v \<Rightarrow> Inl v
                       | None \<Rightarrow> Inr (new_volume_props volumeProps subnet));
                rs4 = (case vol of Inl v \<Rightarrow> rs3 | Inr obj \<Rightarrow> rs3 @ [Volume obj]);
                volumeFormat = volumeFormat_of (props_volume props);
                ud1 = addCommands [''set -xefuo pipefail''] [];
                ud2 = ud1 @ [SignalOnExit];
                prefix = (case props_logGroupPrefix props of
                            None \<Rightarrow> DEFAULT_LOG_GROUP_PREFIX
                          | Some p \<Rightarrow> p);
                rs5 = rs4 @ [LogGroup prefix ident, CloudWatchAgent CLOUDWATCH_LOG_FLUSH_INTERVAL];
                ud3 = ud2 @ [CloudWatchAgentSetup (prefix @ ident)];
                ud4 = ud3 @ [BlockVolumeMount (location (props_mount props)) volumeFormat];
                ud5 = configureNfsServer ud4;
                rs6 = rs5 @ [Asset ''ExportNfsDirectoryAsset'' ''../scripts/bash/exportNfsDirectory.sh''];
                dl = addS3DownloadCommand ''${ExportNfsDirectoryAsset.bucket}''
                       ''${ExportNfsDirectoryAsset.s3ObjectKey}'' ud5
            in Completed
                 \<lparr>mount = props_mount props,
                  exports = [],
                  server = srv,
                  volume = vol,
                  port = 2049,
                  connections =
                    ((case props_securityGroup props of
                        None \<Rightarrow> ''${Server.securityGroup}''
                      | Some g \<Rightarrow> g), 2049),
                  fullHostname = props_hostname props @ ''.'' @ props_dnsZone props,
                  userData = snd dl,
                  exportNfsDirectoryScriptPath = fst dl\<rparr>
                 rs6))"

text \<open>
  \<open>share\<close>; the second argument is absent (\<open>None\<close>) when the caller relies on the
  default. The template literal renders the option array by its \<open>toString\<close>, which
  joins the elements with commas.
\<close>

definition share :: "string \<Rightarrow> string list option \<Rightarrow> NfsInstance \<Rightarrow> NfsInstance" where
  \<open>share cl opts this =
     (let nfsOpts = (case opts of
                       None \<Rightarrow> [''rw'', ''sync'', ''no_subtree_check'', ''insecure'']
                     | Some given \<Rightarrow> given)
      in this\<lparr>exports := exports this @ [\<lparr>client = cl, nfsOptions = nfsOpts\<rparr>],
              userData :=
                addExecuteFileCommand (exportNfsDirectoryScriptPath this)
                  (''"'' @ location (mount this) @ ''" "'' @ cl @ ''" "'' @
                   join '','' nfsOpts @ ''"'')
                  (userData this)\<rparr>)\<close>

section \<open>Mounting the NFS share\<close>

record MountableNfs =
  nfs_scope :: nat
  nfs_filesystem :: NfsInstance
  nfs_extraMountOptions :: "string list option"

text \<open>\<open>uuid.replace(/[-]/g, '')\<close> deletes every dash.\<close>

definition remove_dashes :: "string \<Rightarrow> string" where
  "remove_dashes s = filter (\<lambda>c. c \<noteq> CHR ''-'') s"

text \<open>
  The expression \<open>stack.node.tryFindChild(uniqueId) ?? new Asset(stack, uniqueId, props)\<close>
  that both singleton look-ups end with.
\<close>

definition find_or_create ::
  "nat \<Rightarrow> string \<Rightarrow> string \<Rightarrow> string list \<Rightarrow> world \<Rightarrow> nat \<times> world" where
  "find_or_create stack uniqueId dir exclude w =
     (case tryFindChild w stack uniqueId of
        Some asset \<Rightarrow> (asset, w)
      | None \<Rightarrow> new_Asset stack uniqueId dir exclude w)"

definition MountableNfs_uniqueId :: string where
  "MountableNfs_uniqueId =
     ''MountableNfsAsset'' @ remove_dashes ''e76885c2-b1c3-4828-8aaa-eda91e2e60f0''"

definition MountableNfs_mountAssetSingleton :: "MountableNfs \<Rightarrow> world \<Rightarrow> nat \<times> world" where
  "MountableNfs_mountAssetSingleton this w =
     (let stack = stack_of w (nfs_scope this)
      in find_or_create stack MountableNfs_uniqueId ''../scripts/bash''
           [''**/*'', ''!mountNfs.sh''] w)"

definition MountableNfs_mountToLinuxInstance ::
  "MountableNfs \<Rightarrow> IMountingInstance \<Rightarrow> LinuxMountPointProps \<Rightarrow> world \<Rightarrow>
     (unit, IMountingInstance \<times> world) outcome" where
  \<open>MountableNfs_mountToLinuxInstance this target mnt w =
     (if osType target \<noteq> LINUX then Thrown ''Target instance must be Linux.'' (target, w)
      else
        (let fs = nfs_filesystem this;
             w1 = allowTo (target_connections target) (fst (connections fs))
                    (snd (connections fs)) w;
             found = MountableNfs_mountAssetSingleton this w1;
             mountScriptAsset = fst found;
             w2 = grantRead mountScriptAsset (target_grantPrincipal target) (snd found);
             dl = addS3DownloadCommand (fst (s3_location w2 mountScriptAsset))
                    (snd (s3_location w2 mountScriptAsset)) (target_userData target);
             mountScript = fst dl;
             mountDir = posix_normalize (location mnt);
             optionsStr = mountOptionsStr (permissions mnt) (nfs_extraMountOptions this);
             ud = addCommands
                    [''TMPDIR=$(mktemp -d)'',
                     ''pushd "$TMPDIR"'',
                     ''unzip '' @ mountScript,
                     ''bash ./mountNfs.sh '' @ fullHostname fs @ '' '' @ location (mount fs) @
                       '' '' @ mountDir @ '' '' @ optionsStr,
                     ''popd'',
                     ''rm -f '' @ mountScript] (snd dl)
         in Completed () (target\<lparr>target_userData := ud\<rparr>, w2)))\<close>

section \<open>Mounting the Lustre file system\<close>

datatype LinuxDistribution =
    AMAZON_LINUX
  | AMAZON_LINUX_2
  | CENTOS_AND_REDHAT_7_5
  | CENTOS_AND_REDHAT_7_6
  | CENTOS_AND_REDHAT_7_7
  | CENTOS_AND_REDHAT_7_8_X86
  | CENTOS_AND_REDHAT_7_9_X86
  | CENTOS_AND_REDHAT_7_8_GRAVITON
  | CENTOS_AND_REDHAT_7_9_GRAVITON
  | CENTOS_AND_REDHAT_8_2
  | UBUNTU_16_04
  | UBUNTU_18_04
  | UBUNTU_20_04
  | SUSE_LINUX_12_SP3
  | SUSE_LINUX_12_SP4
  | SUSE_LINUX_12_SP5

text \<open>The members of a numeric enum print as their ordinals.\<close>

fun distribution_text :: "LinuxDistribution \<Rightarrow> string" where
  "distribution_text AMAZON_LINUX = ''0''"
| "distribution_text AMAZON_LINUX_2 = ''1''"
| "distribution_text CENTOS_AND_REDHAT_7_5 = ''2''"
| "distribution_text CENTOS_AND_REDHAT_7_6 = ''3''"
| "distribution_text CENTOS_AND_REDHAT_7_7 = ''4''"
| "distribution_text CENTOS_AND_REDHAT_7_8_X86 = ''5''"
| "distribution_text CENTOS_AND_REDHAT_7_9_X86 = ''6''"
| "distribution_text CENTOS_AND_REDHAT_7_8_GRAVITON = ''7''"
| "distribution_text CENTOS_AND_REDHAT_7_9_GRAVITON = ''8''"
| "distribution_text CENTOS_AND_REDHAT_8_2 = ''9''"
| "distribution_text UBUNTU_16_04 = ''10''"
| "distribution_text UBUNTU_18_04 = ''11''"
| "distribution_text UBUNTU_20_04 = ''12''"
| "distribution_text SUSE_LINUX_12_SP3 = ''13''"
| "distribution_text SUSE_LINUX_12_SP4 = ''14''"
| "distribution_text SUSE_LINUX_12_SP5 = ''15''"

record LustreFileSystem =
  fileSystemId :: string
  mountName :: string
  lustre_connections :: "string \<times> nat"

record MountableFsxLustre =
  lustre_scope :: nat
  lustre_filesystem :: LustreFileSystem
  linuxDistribution :: LinuxDistribution
  lustre_extraMountOptions :: "string list option"

definition MountableFsxLustre_uniqueId :: string where
  "MountableFsxLustre_uniqueId =
     ''MountableFsxLustreAsset'' @ remove_dashes ''0db888da-5901-4948-aaa5-e71c541c8060''"

definition MountableFsxLustre_mountAssetSingleton ::
  "MountableFsxLustre \<Rightarrow> world \<Rightarrow> nat \<times> world" where
  "MountableFsxLustre_mountAssetSingleton this w =
     (let stack = stack_of w (lustre_scope this)
      in find_or_create stack MountableFsxLustre_uniqueId ''../scripts/bash''
           [''**/*'', ''!mountFsxLustre.sh'', ''!metadataUtilities.sh'', ''!ec2-certificates.crt''] w)"

definition createIsKernelVersionLowerFunc :: string where
  \<open>createIsKernelVersionLowerFunc =
     join [CHR 0x0A]
       [''function is_kernel_version_lower() {'',
        ''  local IFS=$3'',
        ''  read -r -a lhs_array <<< "$1"'',
        ''  read -r -a rhs_array <<< "$2"'',
        ''  if [ ${#lhs_array[@]} -ne ${#rhs_array[@]} ]; then'',
        ''    echo "ERROR: Kernel version lengths do not match: $1 $2"'',
        ''    exit 1'',
        ''  fi'',
        ''  for i in ${!lhs_array[@]}; do'',
        ''    local lhs="${lhs_array[$i]}"'',
        ''    local rhs="${rhs_array[$i]}"'',
        ''    if [[ $lhs =~ ^[0-9]+$ && $rhs =~ ^[0-9]+$ && $lhs -lt $rhs ]]; then'',
        ''      return 0'',
        ''    fi'',
        ''  done'',
        ''  return 1'',
        ''}'']\<close>

text \<open>The kernel patterns; \<open>esc_dot\<close> is a backslash followed by a dot.\<close>

definition esc_dot :: string where
  "esc_dot = [CHR 0x5C, CHR ''.'']"

definition al2KernelPattern :: "string \<Rightarrow> string" where
  "al2KernelPattern arch =
     ''^[0-9]+'' @ esc_dot @ ''[0-9]+'' @ esc_dot @ ''[0-9]+-[0-9]+'' @ esc_dot @ ''[0-9]+'' @
     esc_dot @ ''amzn2'' @ esc_dot @ arch @ ''$''"

definition getLustreClientInstallationCommands :: "MountableFsxLustre \<Rightarrow> string + string list" where
  \<open>getLustreClientInstallationCommands this =
     (case linuxDistribution this of
        AMAZON_LINUX_2 \<Rightarrow>
          Inr [createIsKernelVersionLowerFunc,
               ''set -x'',
               ''KERNEL_VERSION=$(uname -r)'',
               ''if [[ "$KERNEL_VERSION" =~ '' @ al2KernelPattern ''x86_64'' @ '' ]]; then'',
               ''  MIN_VER="4.14.104-95.84.amzn2.x86_64"'',
               ''elif [[ "$KERNEL_VERSION" =~ '' @ al2KernelPattern ''aarch64'' @ '' ]]; then'',
               ''  MIN_VER="4.14.181-142.260.amzn2.aarch64"'',
               ''else'',
               ''  echo "Not on Amazon Linux 2. Exiting..."; exit 1'',
               ''fi'',
               ''if is_kernel_version_lower $KERNEL_VERSION $MIN_VER ".-"; then'',
               ''  sudo yum -y update kernel && sudo reboot'',
               ''fi'',
               ''sudo amazon-linux-extras install -y lustre2.10'']
      | other \<Rightarrow>
          Inl (''Linux distribution '' @ distribution_text other @
               '' is not currently not supported''))\<close>

text \<open>
  The installation commands are computed while the arguments of the last
  \<open>addCommands\<close> are evaluated: when they throw, the network rule, the grant and the
  download command are already in place.
\<close>

definition MountableFsxLustre_mountToLinuxInstance ::
  "MountableFsxLustre \<Rightarrow> IMountingInstance \<Rightarrow> LinuxMountPointProps \<Rightarrow> world \<Rightarrow>
     (unit, IMountingInstance \<times> world) outcome" where
  \<open>MountableFsxLustre_mountToLinuxInstance this target mnt w =
     (if osType target \<noteq> LINUX then Thrown ''Target instance must be Linux.'' (target, w)
      else
        (let fs = lustre_filesystem this;
             w1 = allowTo (target_connections target) (fst (lustre_connections fs))
                    (snd (lustre_connections fs)) w;
             found = MountableFsxLustre_mountAssetSingleton this w1;
             mountScriptAsset = fst found;
             w2 = grantRead mountScriptAsset (target_grantPrincipal target) (snd found);
             dl = addS3DownloadCommand (fst (s3_location w2 mountScriptAsset))
                    (snd (s3_location w2 mountScriptAsset)) (target_userData target);
             mountScript = fst dl;
             mountDir = posix_normalize (location mnt);
             optionsStr = mountOptionsStr (permissions mnt) (lustre_extraMountOptions this)
         in case getLustreClientInstallationCommands this of
              Inl msg \<Rightarrow> Thrown msg (target\<lparr>target_userData := snd dl\<rparr>, w2)
            | Inr install \<Rightarrow>
                Completed ()
                  (target\<lparr>target_userData :=
                      addCommands
                        (install @
                         [''TMPDIR=$(mktemp -d)'',
                          ''pushd "$TMPDIR"'',
                          ''unzip '' @ mountScript,
                          ''bash ./mountFsxLustre.sh '' @ fileSystemId fs @ '' '' @ mountDir @
                            '' '' @ mountName fs @ '' '' @ optionsStr,
                          ''popd'',
                          ''rm -f '' @ mountScript]) (snd dl)\<rparr>, w2)))\<close>

section \<open>Well-formed construct trees and repeated look-ups\<close>

text \<open>
  The construct tree is well formed when every registered child was allocated before
  \<open>next_ref\<close>, no object is the child of two places (a construct has one scope and
  one identifier), and the logged assets were created under distinct places at which
  a child is registered.
\<close>

definition asset_keys :: "world \<Rightarrow> (nat \<times> string) list" where
  "asset_keys w = map (\<lambda>(r, scope, ident, dir, exclude). (scope, ident)) (created_assets w)"

definition wf_world :: "world \<Rightarrow> bool" where
  "wf_world w =
     ((\<forall>n i r. children w n i = Some r \<longrightarrow> r < next_ref w) \<and>
      (\<forall>n i m j r. children w n i = Some r \<and> children w m j = Some r \<longrightarrow> n = m \<and> i = j) \<and>
      distinct (asset_keys w) \<and>
      (\<forall>n i. (n, i) \<in> set (asset_keys w) \<longrightarrow> children w n i \<noteq> None))"

text \<open>A sequence of singleton look-ups, one for each mountable of a list, in order.\<close>

fun nfs_lookups :: "MountableNfs list \<Rightarrow> world \<Rightarrow> nat list \<times> world" where
  "nfs_lookups [] w = ([], w)"
| "nfs_lookups (m # ms) w =
     (let found = MountableNfs_mountAssetSingleton m w;
          rest = nfs_lookups ms (snd found)
      in (fst found # fst rest, snd rest))"

fun lustre_lookups :: "MountableFsxLustre list \<Rightarrow> world \<Rightarrow> nat list \<times> world" where
  "lustre_lookups [] w = ([], w)"
| "lustre_lookups (m # ms) w =
     (let found = MountableFsxLustre_mountAssetSingleton m w;
          rest = lustre_lookups ms (snd found)
      in (fst found # fst rest, snd rest))"

text \<open>
  A world without constructs, in which the scopes 10 to 19 lie in stack 1, the scopes
  20 to 29 in stack 2, and so on.
\<close>

definition empty_world :: world where
  "empty_world =
     \<lparr>children = (\<lambda>n. Map.empty), stack_of = (\<lambda>n. n div 10), next_ref = 0,
      created_assets = [],
      s3_location = (\<lambda>r. (''bucket'', ''key'')), ingress = [], read_grants = []\<rparr>"

section \<open>The client script \<open>mountNfs.sh\<close>\<close>














section \<open>Auxiliary notions and a test fixture\<close>

text \<open>The state an operation leaves behind, thrown or completed.\<close>

fun outcome_state :: "('r, 's) outcome \<Rightarrow> 's" where
  "outcome_state (Thrown msg s) = s"
| "outcome_state (Completed r s) = s"

text \<open>
  The construct node of an \<open>NfsInstance\<close> deploys nothing by itself; the other
  resources do.
\<close>

fun is_deployed :: "resource \<Rightarrow> bool" where
  "is_deployed (NfsInstanceNode i) = False"
| "is_deployed r = True"

text \<open>
  The object a typed caller passes as \<open>volumeProps\<close> (\<open>NfsInstanceNewVolumeProps\<close>):
  the properties \<open>size\<close>, \<open>encryptionKey\<close> and \<open>fileSystemType\<close>, each present when
  given.
\<close>

definition NfsInstanceNewVolumeProps ::
  "nat option \<Rightarrow> string option \<Rightarrow> BlockVolumeFormat option \<Rightarrow> js_object" where
  "NfsInstanceNewVolumeProps sz key fmt =
     (case sz of None \<Rightarrow> [] | Some n \<Rightarrow> [(''size'', JSize n)]) @
     (case key of None \<Rightarrow> [] | Some k \<Rightarrow> [(''encryptionKey'', JKey k)]) @
     (case fmt of None \<Rightarrow> [] | Some f \<Rightarrow> [(''fileSystemType'', JFormat f)])"

text \<open>
  The fixture of \<open>mountable-nfs.test.ts\<close>: a network whose default selection
  finds two private subnets (and any explicit one finds none), and the properties of
  the server \<open>NFS\<close>. A subnet selection is represented by its JSON text.
\<close>

definition test_vpc :: "string IVpc" where
  "test_vpc =
     \<lparr>vpcId = ''Vpc'',
      selectSubnets =
        (\<lambda>sel. case sel of
                 None \<Rightarrow> [\<lparr>subnetId = ''PrivateSubnet1'', availabilityZone = ''az-1''\<rparr>,
                          \<lparr>subnetId = ''PrivateSubnet2'', availabilityZone = ''az-2''\<rparr>]
               | Some s \<Rightarrow> [])\<rparr>"

definition test_props :: "string NfsInstanceProps" where
  "test_props =
     \<lparr>props_dnsZone = ''zoneName'',
      props_hostname = ''hostname'',
      props_mount = \<lparr>location = ''/mnt/nfs'', permissions = Some READWRITE\<rparr>,
      props_volume = None,
      props_vpc = test_vpc,
      props_vpcSubnets = None,
      props_instanceType = None,
      props_keyName = None,
      props_logGroupPrefix = None,
      props_role = None,
      props_securityGroup = Some ''NFSSecurityGroup''\<rparr>"

definition windowsInstance :: IMountingInstance where
  "windowsInstance =
     \<lparr>osType = WINDOWS, target_connections = ''WindowsInstanceSecurityGroup'',
      target_grantPrincipal = ''WindowsInstanceRole'', target_userData = []\<rparr>"

definition linuxInstance :: IMountingInstance where
  "linuxInstance =
     \<lparr>osType = LINUX, target_connections = ''InstanceSecurityGroup'',
      target_grantPrincipal = ''InstanceRole'', target_userData = []\<rparr>"

text \<open>A request for a new volume whose properties ask for no encryption.\<close>

definition unencrypted_request :: "string NfsInstanceProps" where
  "unencrypted_request =
     test_props\<lparr>props_volume :=
       Some \<lparr>vol_volume = None,
             vol_volumeProps = Some [(''encrypted'', JBool False), (''size'', JSize 100)]\<rparr>\<rparr>"





section \<open>Invariants of the path scan and further fixtures\<close>

text \<open>A result under construction: empty, or without separator at either end and without two in a row.\<close>

definition tidy :: "string \<Rightarrow> bool" where
  "tidy r = (r = [] \<or> (hd r \<noteq> CHR ''/'' \<and> last r \<noteq> CHR ''/'' \<and> no_double_sep r))"

text \<open>The scan keeps the result tidy and the segment being read free of separators.\<close>

definition scan_inv :: "norm_state \<Rightarrow> bool" where
  "scan_inv s = (tidy (res s) \<and> CHR ''/'' \<notin> set (seg s))"

text \<open>The value of a completed operation, and the server and Lustre mount of the fixture.\<close>

fun completed :: "('r, 's) outcome \<Rightarrow> 'r option" where
  "completed (Thrown msg s) = None"
| "completed (Completed r s) = Some r"

definition test_nfs :: NfsInstance where
  "test_nfs = the (completed (NfsInstance_constructor (\<lambda>s. s) ''NFS'' test_props []))"

definition test_lustre :: MountableFsxLustre where
  "test_lustre =
     \<lparr>lustre_scope = 10,
      lustre_filesystem =
        \<lparr>fileSystemId = ''fs-0123'', mountName = ''fsx'',
         lustre_connections = (''LustreSecurityGroup'', 988)\<rparr>,
      linuxDistribution = AMAZON_LINUX_2,
      lustre_extraMountOptions = Some [''noatime'']\<rparr>"

section \<open>Facts about the version comparison\<close>

lemma read_array_min_x86:
  "read_array ''.-'' ''4.14.104-95.84.amzn2.x86_64'' =
     [''4'', ''14'', ''104'', ''95'', ''84'', ''amzn2'', ''x86_64'']"
  by (simp add: read_array_def)

lemma read_array_min_aarch64:
  "read_array ''.-'' ''4.14.181-142.260.amzn2.aarch64'' =
     [''4'', ''14'', ''181'', ''142'', ''260'', ''amzn2'', ''aarch64'']"
  by (simp add: read_array_def)

lemma arith_value_4: "arith_value ''4'' = Some 4"
  by (simp add: arith_value_def digit_val_def)

lemma arith_value_14: "arith_value ''14'' = Some 14"
  by (simp add: arith_value_def digit_val_def)

lemma arith_value_104: "arith_value ''104'' = Some 104"
  by (simp add: arith_value_def digit_val_def)

lemma arith_value_181: "arith_value ''181'' = Some 181"
  by (simp add: arith_value_def digit_val_def)

text \<open>
  A mismatch of the component counts ends the script with status 1, whatever the
  components are.
\<close>

lemma length_mismatch_exits:
  "length (read_array d a) \<noteq> length (read_array d b) \<Longrightarrow>
     is_kernel_version_lower a b d =
       Exited 1 (''ERROR: Kernel version lengths do not match: '' @ a @ '' '' @ b)"
  by (simp add: is_kernel_version_lower_def Let_def)

text \<open>
  C9, as stated: for the pair \<open>4.14.104-95.84.amzn2.x86_64\<close> and
  \<open>4.14.181-142.260.amzn2.aarch64\<close>, split on \<open>.\<close> and \<open>-\<close>, the helper raises the
  component-count error and exits. The code does not: the call is no exit.
\<close>

theorem C9_min_versions_no_exit:
  "\<not> is_exit (is_kernel_version_lower ''4.14.104-95.84.amzn2.x86_64''
                  ''4.14.181-142.260.amzn2.aarch64'' ''.-'')"
  by (simp add: is_kernel_version_lower_def Let_def read_array_min_x86 read_array_min_aarch64
      is_number_def is_digit_def arith_lt_def
      arith_value_4 arith_value_14 arith_value_104 arith_value_181)

text \<open>
  C9, amended: both versions of the pair split into seven components, so the length
  check passes; the loop then finds 4 = 4, 14 = 14 and 104 < 181 and returns 0 (lower).
\<close>

theorem C9_min_versions_compare:
  "length (read_array ''.-'' ''4.14.104-95.84.amzn2.x86_64'') = 7 \<and>
   length (read_array ''.-'' ''4.14.181-142.260.amzn2.aarch64'') = 7 \<and>
   is_kernel_version_lower ''4.14.104-95.84.amzn2.x86_64''
     ''4.14.181-142.260.amzn2.aarch64'' ''.-'' = Returned 0"
  by (simp add: is_kernel_version_lower_def Let_def read_array_min_x86 read_array_min_aarch64
      is_number_def is_digit_def arith_lt_def
      arith_value_4 arith_value_14 arith_value_104 arith_value_181)

lemma read_array_kernel_5_10:
  "read_array ''.-'' ''5.10.130-118.517.amzn2.x86_64'' =
     [''5'', ''10'', ''130'', ''118'', ''517'', ''amzn2'', ''x86_64'']"
  by (simp add: read_array_def)

lemma arith_value_5: "arith_value ''5'' = Some 5"
  by (simp add: arith_value_def digit_val_def)

lemma arith_value_10: "arith_value ''10'' = Some 10"
  by (simp add: arith_value_def digit_val_def)

text \<open>
  C4: the helper compares component by component, the first differing numeric
  component deciding. At the kernel \<open>5.10.130-118.517.amzn2.x86_64\<close> against the
  minimum \<open>4.14.104-95.84.amzn2.x86_64\<close> the first components differ, 5 against 4,
  so the kernel is not lower; the loop of the helper passes over them, meets 10 < 14
  at the second components and returns 0 (lower).
\<close>

theorem C4_newer_kernel_reported_lower:
  "is_kernel_version_lower ''5.10.130-118.517.amzn2.x86_64'' ''4.14.104-95.84.amzn2.x86_64'' ''.-''
     = Returned 0 \<and>
   \<not> first_difference_lower (read_array ''.-'' ''5.10.130-118.517.amzn2.x86_64'')
        (read_array ''.-'' ''4.14.104-95.84.amzn2.x86_64'')"
  by (simp add: is_kernel_version_lower_def Let_def read_array_min_x86 read_array_kernel_5_10
      is_number_def is_digit_def arith_lt_def
      arith_value_4 arith_value_14 arith_value_5 arith_value_10)

section \<open>Facts about the mount operations\<close>

lemma join_comma_Cons: "join '','' (x # xs) = x @ concat (map (\<lambda>opt. '','' @ opt) xs)"
  by (induction xs arbitrary: x) simp_all

text \<open>
  C3: the options token is the permission flag followed by the caller's extra options,
  each behind a comma, in the order given: nothing is reordered and nothing is dropped.
  For read-write permission and the extras \<open>soft\<close>, \<open>rsize=4096\<close> it is
  \<open>rw,soft,rsize=4096\<close>.
\<close>

theorem C3_mount_options_order:
  "mountOptionsStr perm (Some extras) =
     toLinuxMountOption perm @ concat (map (\<lambda>opt. '','' @ opt) extras) \<and>
   mountOptionsStr perm None = toLinuxMountOption perm \<and>
   mountOptionsStr (Some READWRITE) (Some [''soft'', ''rsize=4096'']) = ''rw,soft,rsize=4096''"
  by (simp add: mountOptionsStr_def mountOptions_def join_comma_Cons)

text \<open>
  C2: on a target that is not Linux both mount operations throw
  \<open>Target instance must be Linux.\<close> and leave the target (its boot-script buffer
  included) and the world (its network rules included) as they were.
\<close>

theorem C2_non_linux_target_rejected:
  assumes "osType target \<noteq> LINUX"
  shows "MountableNfs_mountToLinuxInstance nfs target mnt w =
           Thrown ''Target instance must be Linux.'' (target, w) \<and>
         MountableFsxLustre_mountToLinuxInstance lustre target mnt w =
           Thrown ''Target instance must be Linux.'' (target, w)"
  using assms
  by (simp add: MountableNfs_mountToLinuxInstance_def MountableFsxLustre_mountToLinuxInstance_def)

theorem C2_windows_target_witness:
  "\<forall>nfs lustre mnt w.
     MountableNfs_mountToLinuxInstance nfs windowsInstance mnt w =
       Thrown ''Target instance must be Linux.'' (windowsInstance, w) \<and>
     MountableFsxLustre_mountToLinuxInstance lustre windowsInstance mnt w =
       Thrown ''Target instance must be Linux.'' (windowsInstance, w)"
proof -
  have windows: "osType windowsInstance \<noteq> LINUX"
    by (simp add: windowsInstance_def)
  show ?thesis
    using C2_non_linux_target_rejected [OF windows] by blast
qed

section \<open>Facts about the NFS server instance\<close>

lemma constructor_no_subnets:
  assumes "selectSubnets (props_vpc props) (props_vpcSubnets props) = []"
  shows "NfsInstance_constructor js ident props rs =
           Thrown (''Did not find any subnets matching '' @
                   (case props_vpcSubnets props of None \<Rightarrow> ''undefined'' | Some sel \<Rightarrow> js sel) @
                   ''. Please use a different selection.'') (rs @ [NfsInstanceNode ident])"
  using assms by (simp add: NfsInstance_constructor_def Let_def)

lemma constructor_completes:
  assumes "selectSubnets (props_vpc props) (props_vpcSubnets props) = s # rest"
  shows "\<exists>inst rs'. NfsInstance_constructor js ident props rs = Completed inst rs'"
  using assms by (simp add: NfsInstance_constructor_def Let_def)

lemma constructor_fields:
  assumes "NfsInstance_constructor js ident props rs = Completed inst rs'"
  shows "exports inst = [] \<and> mount inst = props_mount props \<and> port inst = 2049 \<and>
         fullHostname inst = props_hostname props @ ''.'' @ props_dnsZone props"
  using assms by (auto simp add: NfsInstance_constructor_def Let_def split: if_splits)

lemma constructor_first_subnet:
  assumes "selectSubnets (props_vpc props) (props_vpcSubnets props) = s # rest"
    and "NfsInstance_constructor js ident props rs = Completed inst rs'"
  shows "srv_subnets (server inst) = [s] \<and> StaticPrivateIpServer (server inst) \<in> set rs'"
  using assms by (auto simp add: NfsInstance_constructor_def Let_def split: option.splits sum.splits)

lemma share_exports:
  "exports (share c opts this) =
     exports this @
       [\<lparr>client = c,
         nfsOptions = (case opts of
                         None \<Rightarrow> [''rw'', ''sync'', ''no_subtree_check'', ''insecure'']
                       | Some given \<Rightarrow> given)\<rparr>]"
  by (simp add: share_def Let_def)

lemma share_userData:
  \<open>userData (share c opts this) =
     userData this @
       [ExecuteFile (exportNfsDirectoryScriptPath this)
          (''"'' @ location (mount this) @ ''" "'' @ c @ ''" "'' @
           join '','' (case opts of
                         None \<Rightarrow> [''rw'', ''sync'', ''no_subtree_check'', ''insecure'']
                       | Some given \<Rightarrow> given) @ ''"'')]\<close>
  by (simp add: share_def Let_def addExecuteFileCommand_def)

lemma share_keeps:
  "exportNfsDirectoryScriptPath (share c opts this) = exportNfsDirectoryScriptPath this \<and>
   mount (share c opts this) = mount this"
  by (simp add: share_def Let_def)

text \<open>
  C5: \<open>share\<close> appends one export record and one invocation of the export script,
  whatever the list already holds; on a freshly constructed server two calls with the
  same client and the default options leave two records and append two invocations.
\<close>

theorem C5_share_appends:
  \<open>exports (share c opts this) =
     exports this @
       [\<lparr>client = c,
         nfsOptions = (case opts of
                         None \<Rightarrow> [''rw'', ''sync'', ''no_subtree_check'', ''insecure'']
                       | Some given \<Rightarrow> given)\<rparr>] \<and>
   userData (share c opts this) =
     userData this @
       [ExecuteFile (exportNfsDirectoryScriptPath this)
          (''"'' @ location (mount this) @ ''" "'' @ c @ ''" "'' @
           join '','' (case opts of
                         None \<Rightarrow> [''rw'', ''sync'', ''no_subtree_check'', ''insecure'']
                       | Some given \<Rightarrow> given) @ ''"'')] \<and>
   (NfsInstance_constructor js ident props rs = Completed inst rs' \<longrightarrow>
      exports (share c None (share c None inst)) =
        [\<lparr>client = c, nfsOptions = [''rw'', ''sync'', ''no_subtree_check'', ''insecure'']\<rparr>,
         \<lparr>client = c, nfsOptions = [''rw'', ''sync'', ''no_subtree_check'', ''insecure'']\<rparr>] \<and>
      length (exports (share c None (share c None inst))) = 2 \<and>
      userData (share c None (share c None inst)) =
        userData inst @
          [ExecuteFile (exportNfsDirectoryScriptPath inst)
             (''"'' @ location (props_mount props) @ ''" "'' @ c @
              ''" "rw,sync,no_subtree_check,insecure"''),
           ExecuteFile (exportNfsDirectoryScriptPath inst)
             (''"'' @ location (props_mount props) @ ''" "'' @ c @
              ''" "rw,sync,no_subtree_check,insecure"'')])\<close>
proof (intro conjI impI)
  assume built: "NfsInstance_constructor js ident props rs = Completed inst rs'"
  from constructor_fields [OF built]
  have fresh: "exports inst = []" and mnt: "mount inst = props_mount props" by simp_all
  show "exports (share c None (share c None inst)) =
        [\<lparr>client = c, nfsOptions = [''rw'', ''sync'', ''no_subtree_check'', ''insecure'']\<rparr>,
         \<lparr>client = c, nfsOptions = [''rw'', ''sync'', ''no_subtree_check'', ''insecure'']\<rparr>]"
    by (simp add: share_exports fresh)
  then show "length (exports (share c None (share c None inst))) = 2" by simp
  show \<open>userData (share c None (share c None inst)) =
        userData inst @
          [ExecuteFile (exportNfsDirectoryScriptPath inst)
             (''"'' @ location (props_mount props) @ ''" "'' @ c @
              ''" "rw,sync,no_subtree_check,insecure"''),
           ExecuteFile (exportNfsDirectoryScriptPath inst)
             (''"'' @ location (props_mount props) @ ''" "'' @ c @
              ''" "rw,sync,no_subtree_check,insecure"'')]\<close>
    by (simp add: share_userData share_keeps mnt)
qed (simp_all only: share_exports share_userData)

lemma test_constructor:
  "\<exists>inst rs'. NfsInstance_constructor (\<lambda>s. s) ''NFS'' test_props [] = Completed inst rs'"
  by (rule constructor_completes [where s = "\<lparr>subnetId = ''PrivateSubnet1'', availabilityZone = ''az-1''\<rparr>"])
     (simp add: test_props_def test_vpc_def)

theorem C5_share_twice_witness:
  \<open>\<exists>inst rs'.
     NfsInstance_constructor (\<lambda>s. s) ''NFS'' test_props [] = Completed inst rs' \<and>
     length (exports (share ''10.0.0.0/24'' None (share ''10.0.0.0/24'' None inst))) = 2 \<and>
     userData (share ''10.0.0.0/24'' None (share ''10.0.0.0/24'' None inst)) =
       userData inst @
         [ExecuteFile (exportNfsDirectoryScriptPath inst)
            ''"/mnt/nfs" "10.0.0.0/24" "rw,sync,no_subtree_check,insecure"'',
          ExecuteFile (exportNfsDirectoryScriptPath inst)
            ''"/mnt/nfs" "10.0.0.0/24" "rw,sync,no_subtree_check,insecure"'']\<close>
proof -
  obtain inst rs' where
    built: "NfsInstance_constructor (\<lambda>s. s) ''NFS'' test_props [] = Completed inst rs'"
    using test_constructor by blast
  have loc: "location (props_mount test_props) = ''/mnt/nfs''"
    by (simp add: test_props_def)
  note appended = C5_share_appends [where c = "''10.0.0.0/24''" and opts = None and this = inst
      and inst = inst and js = "\<lambda>s. s" and ident = "''NFS''" and props = test_props
      and rs = "[]" and rs' = rs']
  from appended built
  have two: "length (exports (share ''10.0.0.0/24'' None (share ''10.0.0.0/24'' None inst))) = 2"
    by blast
  from appended built
  have \<open>userData (share ''10.0.0.0/24'' None (share ''10.0.0.0/24'' None inst)) =
        userData inst @
          [ExecuteFile (exportNfsDirectoryScriptPath inst)
             (''"'' @ location (props_mount test_props) @ ''" "'' @ ''10.0.0.0/24'' @
              ''" "rw,sync,no_subtree_check,insecure"''),
           ExecuteFile (exportNfsDirectoryScriptPath inst)
             (''"'' @ location (props_mount test_props) @ ''" "'' @ ''10.0.0.0/24'' @
              ''" "rw,sync,no_subtree_check,insecure"'')]\<close>
    by blast
  then have cmds: \<open>userData (share ''10.0.0.0/24'' None (share ''10.0.0.0/24'' None inst)) =
       userData inst @
         [ExecuteFile (exportNfsDirectoryScriptPath inst)
            ''"/mnt/nfs" "10.0.0.0/24" "rw,sync,no_subtree_check,insecure"'',
          ExecuteFile (exportNfsDirectoryScriptPath inst)
            ''"/mnt/nfs" "10.0.0.0/24" "rw,sync,no_subtree_check,insecure"'']\<close>
    by (simp add: loc)
  from built two cmds show ?thesis by blast
qed

lemma map_of_spread:
  "map_of (spread (Some src) obj) = map_of obj ++ map_of (rev src)"
proof (induction src arbitrary: obj)
  case Nil
  show ?case by simp
next
  case (Cons p src)
  obtain k v where p: "p = (k, v)" by (cases p)
  have "map_of (spread (Some (p # src)) obj) = map_of (set_prop k v obj) ++ map_of (rev src)"
    by (simp add: p Cons.IH)
  also have "\<dots> = map_of obj ++ map_of (rev (p # src))"
    by (simp add: p set_prop_def AList.update_conv' map_add_def fun_eq_iff split: option.splits)
  finally show ?case .
qed

lemma map_of_rev_distinct:
  "distinct (map fst al) \<Longrightarrow> map_of (rev al) = map_of al"
proof (induction al)
  case Nil
  show ?case by simp
next
  case (Cons p al)
  obtain k v where p: "p = (k, v)" by (cases p)
  from Cons.prems have absent: "map_of al k = None"
    by (simp add: p map_of_eq_None_iff)
  from Cons have IH: "map_of (rev al) = map_of al" by simp
  have "map_of (rev (p # al)) x = map_of (p # al) x" for x
    using absent by (cases "x = k") (simp_all add: p IH map_add_def split: option.splits)
  then show ?case by blast
qed

lemma get_prop_set_prop:
  "get_prop (set_prop k v obj) k' = (if k' = k then v else get_prop obj k')"
  by (simp add: get_prop_def set_prop_def AList.update_conv')

lemma get_prop_spread_None: "get_prop (spread None obj) k = get_prop obj k"
  by simp

lemma get_prop_spread_Some:
  assumes "distinct (map fst src)"
  shows "get_prop (spread (Some src) obj) k =
           (if k \<in> fst ` set src then get_prop src k else get_prop obj k)"
proof (cases "map_of src k")
  case None
  then have "k \<notin> fst ` set src" by (simp add: map_of_eq_None_iff)
  with None show ?thesis
    by (simp add: get_prop_def map_of_spread map_of_rev_distinct [OF assms] map_add_def)
next
  case (Some v)
  then have "k \<in> fst ` set src" by (metis map_of_eq_None_iff option.distinct(1))
  with Some show ?thesis
    by (simp add: get_prop_def map_of_spread map_of_rev_distinct [OF assms] map_add_def)
qed

lemma new_volume_encrypted:
  "get_prop (new_volume_props vp subnet) ''encrypted'' = JBool True \<and>
   get_prop (new_volume_props vp subnet) ''availabilityZone'' = JStr (availabilityZone subnet)"
  by (simp add: new_volume_props_def get_prop_set_prop)

lemma new_volume_default_size:
  "get_prop (new_volume_props None subnet) ''size'' = JSize 20"
  by (simp add: new_volume_props_def get_prop_set_prop DEFAULT_DEVICE_SIZE_def)

lemma get_prop_absent: "k \<notin> fst ` set obj \<Longrightarrow> get_prop obj k = Undefined"
  by (simp add: get_prop_def map_of_eq_None_iff [symmetric])

lemma new_volume_passes:
  assumes "distinct (map fst obj)"
  shows "get_prop (new_volume_props (Some obj) subnet) ''size'' =
           (if ''size'' \<in> fst ` set obj then get_prop obj ''size'' else JSize 20) \<and>
         get_prop (new_volume_props (Some obj) subnet) ''encryptionKey'' =
           get_prop obj ''encryptionKey''"
proof -
  have "get_prop (set_prop ''size'' (JSize DEFAULT_DEVICE_SIZE) []) ''encryptionKey'' = Undefined"
    by (simp add: get_prop_def set_prop_def)
  moreover have "get_prop (set_prop ''size'' (JSize DEFAULT_DEVICE_SIZE) []) ''size'' = JSize 20"
    by (simp add: get_prop_def set_prop_def DEFAULT_DEVICE_SIZE_def)
  ultimately show ?thesis
    using get_prop_absent [of "''encryptionKey''" obj]
    by (simp add: new_volume_props_def get_prop_set_prop get_prop_spread_Some [OF assms])
qed

lemma new_volume_typed:
  "new_volume_props (Some (NfsInstanceNewVolumeProps sz key fmt)) subnet =
     [(''size'', JSize (case sz of None \<Rightarrow> 20 | Some n \<Rightarrow> n))] @
     (case key of None \<Rightarrow> [] | Some k \<Rightarrow> [(''encryptionKey'', JKey k)]) @
     (case fmt of None \<Rightarrow> [] | Some f \<Rightarrow> [(''fileSystemType'', JFormat f)]) @
     [(''availabilityZone'', JStr (availabilityZone subnet)), (''encrypted'', JBool True)]"
  by (simp add: new_volume_props_def NfsInstanceNewVolumeProps_def set_prop_def
      DEFAULT_DEVICE_SIZE_def split: option.splits)

lemma constructor_new_volume:
  assumes "NfsInstance_constructor js ident props rs = Completed inst rs'"
    and "(case props_volume props of None \<Rightarrow> None | Some v \<Rightarrow> vol_volume v) = None"
  shows "\<exists>subnet.
           subnet = hd (selectSubnets (props_vpc props) (props_vpcSubnets props)) \<and>
           volume inst =
             Inr (new_volume_props
                    (case props_volume props of None \<Rightarrow> None | Some v \<Rightarrow> vol_volumeProps v)
                    subnet) \<and>
           Volume (new_volume_props
                    (case props_volume props of None \<Rightarrow> None | Some v \<Rightarrow> vol_volumeProps v)
                    subnet) \<in> set rs'"
  using assms
  by (auto simp add: NfsInstance_constructor_def Let_def split: if_splits)


lemma constructor_volume_zone:
  assumes "selectSubnets (props_vpc props) (props_vpcSubnets props) = s # rest"
    and "NfsInstance_constructor js ident props rs = Completed inst rs'"
  shows "\<forall>created. volume inst = Inr created \<longrightarrow>
           get_prop created ''availabilityZone'' = JStr (availabilityZone s)"
  using assms new_volume_encrypted
  by (auto simp add: NfsInstance_constructor_def Let_def split: option.splits)

text \<open>
  C6: when the selection finds no subnet the constructor throws an error whose message
  holds the serialised selection, having registered nothing but its own construct node
  (no server, DNS record, volume, log group, agent or asset); when it finds some, the
  construction completes, the server is placed in the first subnet found and a new
  volume in that subnet's availability zone.
\<close>

theorem C6_subnet_selection:
  "(selectSubnets (props_vpc props) (props_vpcSubnets props) = [] \<longrightarrow>
      NfsInstance_constructor js ident props rs =
        Thrown (''Did not find any subnets matching '' @
                (case props_vpcSubnets props of None \<Rightarrow> ''undefined'' | Some sel \<Rightarrow> js sel) @
                ''. Please use a different selection.'') (rs @ [NfsInstanceNode ident]) \<and>
      filter is_deployed (rs @ [NfsInstanceNode ident]) = filter is_deployed rs) \<and>
   (selectSubnets (props_vpc props) (props_vpcSubnets props) = s # rest \<longrightarrow>
      (\<exists>inst rs'.
         NfsInstance_constructor js ident props rs = Completed inst rs' \<and>
         srv_subnets (server inst) = [s] \<and>
         StaticPrivateIpServer (server inst) \<in> set rs' \<and>
         (\<forall>created. volume inst = Inr created \<longrightarrow>
            get_prop created ''availabilityZone'' = JStr (availabilityZone s))))"
proof (intro conjI impI)
  assume none: "selectSubnets (props_vpc props) (props_vpcSubnets props) = []"
  then show "NfsInstance_constructor js ident props rs =
        Thrown (''Did not find any subnets matching '' @
                (case props_vpcSubnets props of None \<Rightarrow> ''undefined'' | Some sel \<Rightarrow> js sel) @
                ''. Please use a different selection.'') (rs @ [NfsInstanceNode ident])"
    by (rule constructor_no_subnets)
  show "filter is_deployed (rs @ [NfsInstanceNode ident]) = filter is_deployed rs"
    by simp
next
  assume some: "selectSubnets (props_vpc props) (props_vpcSubnets props) = s # rest"
  from constructor_completes [OF some] obtain inst rs' where
    built: "NfsInstance_constructor js ident props rs = Completed inst rs'" by blast
  with constructor_first_subnet [OF some built] constructor_volume_zone [OF some built]
  show "\<exists>inst rs'.
         NfsInstance_constructor js ident props rs = Completed inst rs' \<and>
         srv_subnets (server inst) = [s] \<and>
         StaticPrivateIpServer (server inst) \<in> set rs' \<and>
         (\<forall>created. volume inst = Inr created \<longrightarrow>
            get_prop created ''availabilityZone'' = JStr (availabilityZone s))"
    by blast
qed

theorem C6_subnet_selection_witness:
  \<open>NfsInstance_constructor (\<lambda>s. s) ''NFS''
      (test_props\<lparr>props_vpcSubnets := Some ''{"subnetType":"Isolated"}''\<rparr>) [] =
     Thrown ''Did not find any subnets matching {"subnetType":"Isolated"}. Please use a different selection.''
       [NfsInstanceNode ''NFS''] \<and>
   (\<exists>inst rs'.
      NfsInstance_constructor (\<lambda>s. s) ''NFS'' test_props [] = Completed inst rs' \<and>
      srv_subnets (server inst) = [\<lparr>subnetId = ''PrivateSubnet1'', availabilityZone = ''az-1''\<rparr>] \<and>
      StaticPrivateIpServer (server inst) \<in> set rs')\<close>
proof -
  have none: \<open>selectSubnets (props_vpc (test_props\<lparr>props_vpcSubnets := Some ''{"subnetType":"Isolated"}''\<rparr>))
                (props_vpcSubnets (test_props\<lparr>props_vpcSubnets := Some ''{"subnetType":"Isolated"}''\<rparr>)) = []\<close>
    by (simp add: test_props_def test_vpc_def)
  have some: "selectSubnets (props_vpc test_props) (props_vpcSubnets test_props) =
                \<lparr>subnetId = ''PrivateSubnet1'', availabilityZone = ''az-1''\<rparr> #
                [\<lparr>subnetId = ''PrivateSubnet2'', availabilityZone = ''az-2''\<rparr>]"
    by (simp add: test_props_def test_vpc_def)
  from C6_subnet_selection [where props = \<open>test_props\<lparr>props_vpcSubnets := Some ''{"subnetType":"Isolated"}''\<rparr>\<close>
      and js = "\<lambda>s. s" and ident = "''NFS''" and rs = "[]"] none
  have thrown: \<open>NfsInstance_constructor (\<lambda>s. s) ''NFS''
      (test_props\<lparr>props_vpcSubnets := Some ''{"subnetType":"Isolated"}''\<rparr>) [] =
     Thrown ''Did not find any subnets matching {"subnetType":"Isolated"}. Please use a different selection.''
       [NfsInstanceNode ''NFS'']\<close>
    by simp
  from C6_subnet_selection [where props = test_props and js = "\<lambda>s. s" and ident = "''NFS''"
      and rs = "[]"] some
  have \<open>\<exists>inst rs'.
      NfsInstance_constructor (\<lambda>s. s) ''NFS'' test_props [] = Completed inst rs' \<and>
      srv_subnets (server inst) = [\<lparr>subnetId = ''PrivateSubnet1'', availabilityZone = ''az-1''\<rparr>] \<and>
      StaticPrivateIpServer (server inst) \<in> set rs'\<close>
    by blast
  with thrown show ?thesis by blast
qed

text \<open>
  C10: the properties of a new volume have \<open>encrypted\<close> true and the availability zone
  of the chosen subnet whatever the caller's \<open>volumeProps\<close> hold, even a property named
  \<open>encrypted\<close>; the size is 20 unless the caller's object has a \<open>size\<close>, and the
  encryption key is the caller's. For a typed \<open>volumeProps\<close> the object is spelled out.
  A construction without an existing volume creates the volume with these properties.
\<close>

theorem C10_new_volume_encrypted:
  "get_prop (new_volume_props vp subnet) ''encrypted'' = JBool True \<and>
   get_prop (new_volume_props vp subnet) ''availabilityZone'' = JStr (availabilityZone subnet) \<and>
   get_prop (new_volume_props None subnet) ''size'' = JSize 20 \<and>
   (distinct (map fst obj) \<longrightarrow>
      get_prop (new_volume_props (Some obj) subnet) ''size'' =
        (if ''size'' \<in> fst ` set obj then get_prop obj ''size'' else JSize 20) \<and>
      get_prop (new_volume_props (Some obj) subnet) ''encryptionKey'' =
        get_prop obj ''encryptionKey'') \<and>
   new_volume_props (Some (NfsInstanceNewVolumeProps sz key fmt)) subnet =
     [(''size'', JSize (case sz of None \<Rightarrow> 20 | Some n \<Rightarrow> n))] @
     (case key of None \<Rightarrow> [] | Some k \<Rightarrow> [(''encryptionKey'', JKey k)]) @
     (case fmt of None \<Rightarrow> [] | Some f \<Rightarrow> [(''fileSystemType'', JFormat f)]) @
     [(''availabilityZone'', JStr (availabilityZone subnet)), (''encrypted'', JBool True)] \<and>
   (NfsInstance_constructor js ident props rs = Completed inst rs' \<and>
    (case props_volume props of None \<Rightarrow> None | Some v \<Rightarrow> vol_volume v) = None \<longrightarrow>
      (\<exists>created. volume inst = Inr created \<and> Volume created \<in> set rs' \<and>
                 get_prop created ''encrypted'' = JBool True))"
proof (intro conjI impI)
  assume "NfsInstance_constructor js ident props rs = Completed inst rs' \<and>
    (case props_volume props of None \<Rightarrow> None | Some v \<Rightarrow> vol_volume v) = None"
  then have built: "NfsInstance_constructor js ident props rs = Completed inst rs'"
    and fresh: "(case props_volume props of None \<Rightarrow> None | Some v \<Rightarrow> vol_volume v) = None"
    by simp_all
  from constructor_new_volume [OF built fresh] new_volume_encrypted
  show "\<exists>created. volume inst = Inr created \<and> Volume created \<in> set rs' \<and>
                 get_prop created ''encrypted'' = JBool True"
    by blast
next
  assume "distinct (map fst obj)"
  from new_volume_passes [OF this]
  show "get_prop (new_volume_props (Some obj) subnet) ''size'' =
        (if ''size'' \<in> fst ` set obj then get_prop obj ''size'' else JSize 20)"
    and "get_prop (new_volume_props (Some obj) subnet) ''encryptionKey'' =
        get_prop obj ''encryptionKey''"
    by simp_all
qed (simp_all only: new_volume_encrypted new_volume_default_size new_volume_typed)

theorem C10_encrypted_override_witness:
  "get_prop (new_volume_props (Some [(''encrypted'', JBool False), (''size'', JSize 100)])
      \<lparr>subnetId = ''PrivateSubnet1'', availabilityZone = ''az-1''\<rparr>) ''size'' = JSize 100 \<and>
   (\<exists>inst rs' created.
      NfsInstance_constructor (\<lambda>s. s) ''NFS'' unencrypted_request [] = Completed inst rs' \<and>
      volume inst = Inr created \<and> Volume created \<in> set rs' \<and>
      get_prop created ''encrypted'' = JBool True)"
proof -
  have some: "selectSubnets (props_vpc unencrypted_request) (props_vpcSubnets unencrypted_request) =
                \<lparr>subnetId = ''PrivateSubnet1'', availabilityZone = ''az-1''\<rparr> #
                [\<lparr>subnetId = ''PrivateSubnet2'', availabilityZone = ''az-2''\<rparr>]"
    by (simp add: unencrypted_request_def test_props_def test_vpc_def)
  from constructor_completes [OF some] obtain inst rs' where
    built: "NfsInstance_constructor (\<lambda>s. s) ''NFS'' unencrypted_request [] = Completed inst rs'"
    by blast
  have fresh: "(case props_volume unencrypted_request of None \<Rightarrow> None | Some v \<Rightarrow> vol_volume v) = None"
    by (simp add: unencrypted_request_def)
  have names: "distinct (map fst [(''encrypted'', JBool False), (''size'', JSize 100)])"
    by simp
  note fact = C10_new_volume_encrypted [where obj = "[(''encrypted'', JBool False), (''size'', JSize 100)]"
      and subnet = "\<lparr>subnetId = ''PrivateSubnet1'', availabilityZone = ''az-1''\<rparr>"
      and js = "\<lambda>s. s" and ident = "''NFS''" and props = unencrypted_request and rs = "[]"
      and inst = inst and rs' = rs']
  from fact names
  have size: "get_prop (new_volume_props (Some [(''encrypted'', JBool False), (''size'', JSize 100)])
      \<lparr>subnetId = ''PrivateSubnet1'', availabilityZone = ''az-1''\<rparr>) ''size'' = JSize 100"
    by (simp add: get_prop_def)
  from fact built fresh
  have "\<exists>created. volume inst = Inr created \<and> Volume created \<in> set rs' \<and>
                  get_prop created ''encrypted'' = JBool True"
    by blast
  with built size show ?thesis by blast
qed

section \<open>Facts about the client mount script\<close>





















section \<open>Facts about the asset singletons\<close>

lemma find_or_create_present:
  "children w s u = Some h \<Longrightarrow> find_or_create s u d e w = (h, w)"
  by (simp add: find_or_create_def tryFindChild_def)

lemma find_or_create_registers:
  "children (snd (find_or_create s u d e w)) s u = Some (fst (find_or_create s u d e w))"
  by (simp add: find_or_create_def tryFindChild_def new_Asset_def split: option.splits)

lemma find_or_create_stack_of:
  "stack_of (snd (find_or_create s u d e w)) = stack_of w"
  by (simp add: find_or_create_def tryFindChild_def new_Asset_def split: option.splits)

lemma find_or_create_elsewhere:
  "(s', u') \<noteq> (s, u) \<Longrightarrow>
     children (snd (find_or_create s u d e w)) s' u' = children w s' u'"
  by (auto simp add: find_or_create_def tryFindChild_def new_Asset_def split: option.splits)

lemma find_or_create_log:
  "created_assets (snd (find_or_create s u d e w)) =
     (case children w s u of
        Some h \<Rightarrow> created_assets w
      | None \<Rightarrow> created_assets w @ [(next_ref w, s, u, d, e)])"
  by (simp add: find_or_create_def tryFindChild_def new_Asset_def split: option.splits)

lemma wf_new_Asset:
  assumes wf: "wf_world w" and absent: "children w s u = None"
  shows "wf_world (snd (new_Asset s u d e w))"
proof -
  let ?w = "snd (new_Asset s u d e w)"
  have ch: "children ?w n i = (if n = s \<and> i = u then Some (next_ref w) else children w n i)" for n i
    by (simp add: new_Asset_def)
  have nx: "next_ref ?w = Suc (next_ref w)"
    by (simp add: new_Asset_def)
  have keys: "asset_keys ?w = asset_keys w @ [(s, u)]"
    by (simp add: new_Asset_def asset_keys_def)
  from wf have below: "\<And>n i r. children w n i = Some r \<Longrightarrow> r < next_ref w"
    and inj: "\<And>n i m j r. children w n i = Some r \<Longrightarrow> children w m j = Some r \<Longrightarrow> n = m \<and> i = j"
    and dist: "distinct (asset_keys w)"
    and reg: "\<And>n i. (n, i) \<in> set (asset_keys w) \<Longrightarrow> children w n i \<noteq> None"
    unfolding wf_world_def by blast+
  have 1: "\<forall>n i r. children ?w n i = Some r \<longrightarrow> r < next_ref ?w"
    using below by (auto simp add: ch nx less_Suc_eq split: if_splits)
  have 2: "\<forall>n i m j r. children ?w n i = Some r \<and> children ?w m j = Some r \<longrightarrow> n = m \<and> i = j"
  proof (intro allI impI)
    fix n i m j r
    assume both: "children ?w n i = Some r \<and> children ?w m j = Some r"
    show "n = m \<and> i = j"
    proof (cases "n = s \<and> i = u")
      case True
      with both have r: "r = next_ref w" by (simp add: ch)
      show ?thesis
      proof (cases "m = s \<and> j = u")
        case True
        with \<open>n = s \<and> i = u\<close> show ?thesis by simp
      next
        case False
        with both have "children w m j = Some r" by (simp add: ch)
        from below [OF this] r show ?thesis by simp
      qed
    next
      case False
      with both have old: "children w n i = Some r" by (simp add: ch)
      show ?thesis
      proof (cases "m = s \<and> j = u")
        case True
        with both have "r = next_ref w" by (simp add: ch)
        with below [OF old] show ?thesis by simp
      next
        case False
        with both have "children w m j = Some r" by (simp add: ch)
        from inj [OF old this] show ?thesis .
      qed
    qed
  qed
  have 3: "distinct (asset_keys ?w)"
    using dist reg [of s u] absent by (auto simp add: keys)
  have 4: "\<forall>n i. (n, i) \<in> set (asset_keys ?w) \<longrightarrow> children ?w n i \<noteq> None"
    using reg by (auto simp add: keys ch)
  from 1 2 3 4 show ?thesis unfolding wf_world_def by blast
qed

lemma wf_find_or_create:
  "wf_world w \<Longrightarrow> wf_world (snd (find_or_create s u d e w))"
  by (cases "children w s u")
     (simp_all add: find_or_create_def tryFindChild_def wf_new_Asset)

lemma find_or_create_apart:
  assumes wf: "wf_world w" and apart: "s \<noteq> s'"
  shows "fst (find_or_create s u d e w) \<noteq>
         fst (find_or_create s' u' d' e' (snd (find_or_create s u d e w)))"
proof
  let ?r1 = "find_or_create s u d e w"
  let ?r2 = "find_or_create s' u' d' e' (snd ?r1)"
  assume same: "fst ?r1 = fst ?r2"
  have wf2: "wf_world (snd ?r2)"
    by (intro wf_find_or_create wf)
  have second: "children (snd ?r2) s' u' = Some (fst ?r2)"
    by (rule find_or_create_registers)
  from apart have "(s, u) \<noteq> (s', u')" by simp
  from find_or_create_elsewhere [OF this]
  have "children (snd ?r2) s u = children (snd ?r1) s u" .
  then have first: "children (snd ?r2) s u = Some (fst ?r2)"
    by (simp add: find_or_create_registers same)
  from wf2 first second have "s = s'"
    unfolding wf_world_def by blast
  with apart show False by simp
qed

lemma wf_empty_world: "wf_world empty_world"
  by (simp add: wf_world_def empty_world_def asset_keys_def)


lemma nfs_singleton_unfold:
  "MountableNfs_mountAssetSingleton m w =
     find_or_create (stack_of w (nfs_scope m)) MountableNfs_uniqueId ''../scripts/bash''
       [''**/*'', ''!mountNfs.sh''] w"
  by (simp add: MountableNfs_mountAssetSingleton_def Let_def)

lemma lustre_singleton_unfold:
  "MountableFsxLustre_mountAssetSingleton m w =
     find_or_create (stack_of w (lustre_scope m)) MountableFsxLustre_uniqueId ''../scripts/bash''
       [''**/*'', ''!mountFsxLustre.sh'', ''!metadataUtilities.sh'', ''!ec2-certificates.crt''] w"
  by (simp add: MountableFsxLustre_mountAssetSingleton_def Let_def)

lemma nfs_lookups_present:
  assumes "children w s MountableNfs_uniqueId = Some h"
    and "\<forall>m\<in>set ms. stack_of w (nfs_scope m) = s"
  shows "nfs_lookups ms w = (replicate (length ms) h, w)"
  using assms
  by (induction ms) (simp_all add: nfs_singleton_unfold find_or_create_present Let_def)

lemma lustre_lookups_present:
  assumes "children w s MountableFsxLustre_uniqueId = Some h"
    and "\<forall>m\<in>set ms. stack_of w (lustre_scope m) = s"
  shows "lustre_lookups ms w = (replicate (length ms) h, w)"
  using assms
  by (induction ms) (simp_all add: lustre_singleton_unfold find_or_create_present Let_def)

lemma find_or_create_log_length:
  "length (created_assets (snd (find_or_create s u d e w))) \<le> Suc (length (created_assets w))"
  by (simp add: find_or_create_log split: option.splits)

lemma nfs_lookups_same:
  assumes same: "\<forall>m\<in>set ms. stack_of w (nfs_scope m) = s"
  shows "(\<exists>h. fst (nfs_lookups ms w) = replicate (length ms) h) \<and>
         length (created_assets (snd (nfs_lookups ms w))) \<le> Suc (length (created_assets w)) \<and>
         (wf_world w \<longrightarrow> wf_world (snd (nfs_lookups ms w)))"
proof (cases ms)
  case Nil
  then show ?thesis by simp
next
  case (Cons m rest)
  let ?r = "MountableNfs_mountAssetSingleton m w"
  from same Cons have m: "stack_of w (nfs_scope m) = s" by simp
  have reg: "children (snd ?r) s MountableNfs_uniqueId = Some (fst ?r)"
    by (simp add: nfs_singleton_unfold m find_or_create_registers)
  have "stack_of (snd ?r) = stack_of w"
    by (simp add: nfs_singleton_unfold find_or_create_stack_of)
  with same Cons have "\<forall>m\<in>set rest. stack_of (snd ?r) (nfs_scope m) = s" by simp
  from nfs_lookups_present [OF reg this]
  have all: "nfs_lookups ms w = (replicate (length ms) (fst ?r), snd ?r)"
    by (simp add: Cons Let_def)
  have "length (created_assets (snd ?r)) \<le> Suc (length (created_assets w))"
    by (simp add: nfs_singleton_unfold find_or_create_log_length)
  moreover have "wf_world w \<longrightarrow> wf_world (snd ?r)"
    by (simp add: nfs_singleton_unfold wf_find_or_create)
  ultimately show ?thesis by (simp add: all)
qed

lemma lustre_lookups_same:
  assumes same: "\<forall>m\<in>set ms. stack_of w (lustre_scope m) = s"
  shows "(\<exists>h. fst (lustre_lookups ms w) = replicate (length ms) h) \<and>
         length (created_assets (snd (lustre_lookups ms w))) \<le> Suc (length (created_assets w)) \<and>
         (wf_world w \<longrightarrow> wf_world (snd (lustre_lookups ms w)))"
proof (cases ms)
  case Nil
  then show ?thesis by simp
next
  case (Cons m rest)
  let ?r = "MountableFsxLustre_mountAssetSingleton m w"
  from same Cons have m: "stack_of w (lustre_scope m) = s" by simp
  have reg: "children (snd ?r) s MountableFsxLustre_uniqueId = Some (fst ?r)"
    by (simp add: lustre_singleton_unfold m find_or_create_registers)
  have "stack_of (snd ?r) = stack_of w"
    by (simp add: lustre_singleton_unfold find_or_create_stack_of)
  with same Cons have "\<forall>m\<in>set rest. stack_of (snd ?r) (lustre_scope m) = s" by simp
  from lustre_lookups_present [OF reg this]
  have all: "lustre_lookups ms w = (replicate (length ms) (fst ?r), snd ?r)"
    by (simp add: Cons Let_def)
  have "length (created_assets (snd ?r)) \<le> Suc (length (created_assets w))"
    by (simp add: lustre_singleton_unfold find_or_create_log_length)
  moreover have "wf_world w \<longrightarrow> wf_world (snd ?r)"
    by (simp add: lustre_singleton_unfold wf_find_or_create)
  ultimately show ?thesis by (simp add: all)
qed

lemma nfs_singleton_apart:
  assumes "wf_world w" and "stack_of w (nfs_scope m1) \<noteq> stack_of w (nfs_scope m2)"
  shows "fst (MountableNfs_mountAssetSingleton m1 w) \<noteq>
         fst (MountableNfs_mountAssetSingleton m2 (snd (MountableNfs_mountAssetSingleton m1 w)))"
  using find_or_create_apart [OF assms]
  by (simp add: nfs_singleton_unfold find_or_create_stack_of)

lemma lustre_singleton_apart:
  assumes "wf_world w" and "stack_of w (lustre_scope m1) \<noteq> stack_of w (lustre_scope m2)"
  shows "fst (MountableFsxLustre_mountAssetSingleton m1 w) \<noteq>
         fst (MountableFsxLustre_mountAssetSingleton m2
                (snd (MountableFsxLustre_mountAssetSingleton m1 w)))"
  using find_or_create_apart [OF assms]
  by (simp add: lustre_singleton_unfold find_or_create_stack_of)

text \<open>
  C1: in a well-formed world, any sequence of singleton look-ups made from one stack
  returns one and the same handle, creates at most one asset and leaves every place
  with at most one created asset; two look-ups made from two distinct stacks return
  different handles. This holds for the NFS and for the Lustre script bundle.
\<close>

theorem C1_asset_singleton:
  assumes "wf_world w"
  shows
    "((\<forall>m\<in>set ms. stack_of w (nfs_scope m) = s) \<longrightarrow>
        (\<exists>h. fst (nfs_lookups ms w) = replicate (length ms) h) \<and>
        length (created_assets (snd (nfs_lookups ms w))) \<le> Suc (length (created_assets w)) \<and>
        distinct (asset_keys (snd (nfs_lookups ms w)))) \<and>
     ((\<forall>l\<in>set ls. stack_of w (lustre_scope l) = s) \<longrightarrow>
        (\<exists>h. fst (lustre_lookups ls w) = replicate (length ls) h) \<and>
        length (created_assets (snd (lustre_lookups ls w))) \<le> Suc (length (created_assets w)) \<and>
        distinct (asset_keys (snd (lustre_lookups ls w)))) \<and>
     (stack_of w (nfs_scope ma) \<noteq> stack_of w (nfs_scope mb) \<longrightarrow>
        fst (MountableNfs_mountAssetSingleton ma w) \<noteq>
        fst (MountableNfs_mountAssetSingleton mb (snd (MountableNfs_mountAssetSingleton ma w)))) \<and>
     (stack_of w (lustre_scope la) \<noteq> stack_of w (lustre_scope lb) \<longrightarrow>
        fst (MountableFsxLustre_mountAssetSingleton la w) \<noteq>
        fst (MountableFsxLustre_mountAssetSingleton lb
               (snd (MountableFsxLustre_mountAssetSingleton la w))))"
proof (intro conjI impI)
  assume same: "\<forall>m\<in>set ms. stack_of w (nfs_scope m) = s"
  from nfs_lookups_same [OF same] assms
  show "\<exists>h. fst (nfs_lookups ms w) = replicate (length ms) h"
    and "length (created_assets (snd (nfs_lookups ms w))) \<le> Suc (length (created_assets w))"
    and "distinct (asset_keys (snd (nfs_lookups ms w)))"
    unfolding wf_world_def by blast+
next
  assume same: "\<forall>l\<in>set ls. stack_of w (lustre_scope l) = s"
  from lustre_lookups_same [OF same] assms
  show "\<exists>h. fst (lustre_lookups ls w) = replicate (length ls) h"
    and "length (created_assets (snd (lustre_lookups ls w))) \<le> Suc (length (created_assets w))"
    and "distinct (asset_keys (snd (lustre_lookups ls w)))"
    unfolding wf_world_def by blast+
next
  assume "stack_of w (nfs_scope ma) \<noteq> stack_of w (nfs_scope mb)"
  from nfs_singleton_apart [OF assms this]
  show "fst (MountableNfs_mountAssetSingleton ma w) \<noteq>
        fst (MountableNfs_mountAssetSingleton mb (snd (MountableNfs_mountAssetSingleton ma w)))" .
next
  assume "stack_of w (lustre_scope la) \<noteq> stack_of w (lustre_scope lb)"
  from lustre_singleton_apart [OF assms this]
  show "fst (MountableFsxLustre_mountAssetSingleton la w) \<noteq>
        fst (MountableFsxLustre_mountAssetSingleton lb
               (snd (MountableFsxLustre_mountAssetSingleton la w)))" .
qed

theorem C1_two_stacks_witness:
  "\<forall>fs lfs.
     (\<exists>h. fst (nfs_lookups
                 [\<lparr>nfs_scope = 10, nfs_filesystem = fs, nfs_extraMountOptions = None\<rparr>,
                  \<lparr>nfs_scope = 11, nfs_filesystem = fs, nfs_extraMountOptions = None\<rparr>,
                  \<lparr>nfs_scope = 10, nfs_filesystem = fs, nfs_extraMountOptions = Some [''soft'']\<rparr>]
                 empty_world) = [h, h, h]) \<and>
     fst (MountableNfs_mountAssetSingleton
            \<lparr>nfs_scope = 10, nfs_filesystem = fs, nfs_extraMountOptions = None\<rparr> empty_world) \<noteq>
     fst (MountableNfs_mountAssetSingleton
            \<lparr>nfs_scope = 20, nfs_filesystem = fs, nfs_extraMountOptions = None\<rparr>
            (snd (MountableNfs_mountAssetSingleton
                    \<lparr>nfs_scope = 10, nfs_filesystem = fs, nfs_extraMountOptions = None\<rparr>
                    empty_world))) \<and>
     fst (MountableFsxLustre_mountAssetSingleton
            \<lparr>lustre_scope = 10, lustre_filesystem = lfs, linuxDistribution = AMAZON_LINUX_2,
             lustre_extraMountOptions = None\<rparr> empty_world) \<noteq>
     fst (MountableFsxLustre_mountAssetSingleton
            \<lparr>lustre_scope = 20, lustre_filesystem = lfs, linuxDistribution = AMAZON_LINUX_2,
             lustre_extraMountOptions = None\<rparr>
            (snd (MountableFsxLustre_mountAssetSingleton
                    \<lparr>lustre_scope = 10, lustre_filesystem = lfs, linuxDistribution = AMAZON_LINUX_2,
                     lustre_extraMountOptions = None\<rparr> empty_world)))"
proof (intro allI)
  fix fs lfs
  let ?a = "\<lparr>nfs_scope = 10, nfs_filesystem = fs, nfs_extraMountOptions = None\<rparr>"
  let ?b = "\<lparr>nfs_scope = 11, nfs_filesystem = fs, nfs_extraMountOptions = None\<rparr>"
  let ?c = "\<lparr>nfs_scope = 10, nfs_filesystem = fs, nfs_extraMountOptions = Some [''soft'']\<rparr>"
  let ?d = "\<lparr>nfs_scope = 20, nfs_filesystem = fs, nfs_extraMountOptions = None\<rparr>"
  let ?la = "\<lparr>lustre_scope = 10, lustre_filesystem = lfs, linuxDistribution = AMAZON_LINUX_2,
             lustre_extraMountOptions = None\<rparr>"
  let ?lb = "\<lparr>lustre_scope = 20, lustre_filesystem = lfs, linuxDistribution = AMAZON_LINUX_2,
             lustre_extraMountOptions = None\<rparr>"
  have one: "\<forall>m\<in>set [?a, ?b, ?c]. stack_of empty_world (nfs_scope m) = 1"
    by (simp add: empty_world_def)
  have two: "stack_of empty_world (nfs_scope ?a) \<noteq> stack_of empty_world (nfs_scope ?d)"
    by (simp add: empty_world_def)
  have three: "stack_of empty_world (lustre_scope ?la) \<noteq> stack_of empty_world (lustre_scope ?lb)"
    by (simp add: empty_world_def)
  note fact = C1_asset_singleton [OF wf_empty_world, where ms = "[?a, ?b, ?c]" and s = 1
      and ma = ?a and mb = ?d and la = ?la and lb = ?lb]
  from fact one have "\<exists>h. fst (nfs_lookups [?a, ?b, ?c] empty_world) = replicate (length [?a, ?b, ?c]) h"
    by blast
  then have same: "\<exists>h. fst (nfs_lookups [?a, ?b, ?c] empty_world) = [h, h, h]"
    by (simp add: numeral_3_eq_3)
  from fact two have apart: "fst (MountableNfs_mountAssetSingleton ?a empty_world) \<noteq>
     fst (MountableNfs_mountAssetSingleton ?d (snd (MountableNfs_mountAssetSingleton ?a empty_world)))"
    by blast
  from fact three have lapart: "fst (MountableFsxLustre_mountAssetSingleton ?la empty_world) \<noteq>
     fst (MountableFsxLustre_mountAssetSingleton ?lb
            (snd (MountableFsxLustre_mountAssetSingleton ?la empty_world)))"
    by blast
  from same apart lapart
  show "(\<exists>h. fst (nfs_lookups [?a, ?b, ?c] empty_world) = [h, h, h]) \<and>
     fst (MountableNfs_mountAssetSingleton ?a empty_world) \<noteq>
     fst (MountableNfs_mountAssetSingleton ?d (snd (MountableNfs_mountAssetSingleton ?a empty_world))) \<and>
     fst (MountableFsxLustre_mountAssetSingleton ?la empty_world) \<noteq>
     fst (MountableFsxLustre_mountAssetSingleton ?lb
            (snd (MountableFsxLustre_mountAssetSingleton ?la empty_world)))"
    by blast
qed

section \<open>Facts about the normalised mount path\<close>

lemma no_double_sep_Cons:
  "no_double_sep (a # cs) = ((cs = [] \<or> a \<noteq> CHR ''/'' \<or> hd cs \<noteq> CHR ''/'') \<and> no_double_sep cs)"
  by (cases cs) auto

lemma no_double_sep_append:
  "no_double_sep (xs @ ys) =
     (no_double_sep xs \<and> no_double_sep ys \<and>
      (xs = [] \<or> ys = [] \<or> last xs \<noteq> CHR ''/'' \<or> hd ys \<noteq> CHR ''/''))"
proof (induction xs)
  case Nil
  show ?case by simp
next
  case (Cons a xs)
  have "no_double_sep ((a # xs) @ ys) =
          ((xs @ ys = [] \<or> a \<noteq> CHR ''/'' \<or> hd (xs @ ys) \<noteq> CHR ''/'') \<and> no_double_sep (xs @ ys))"
    by (simp add: no_double_sep_Cons)
  also have "\<dots> =
          ((xs @ ys = [] \<or> a \<noteq> CHR ''/'' \<or> hd (xs @ ys) \<noteq> CHR ''/'') \<and>
           no_double_sep xs \<and> no_double_sep ys \<and>
           (xs = [] \<or> ys = [] \<or> last xs \<noteq> CHR ''/'' \<or> hd ys \<noteq> CHR ''/''))"
    by (simp only: Cons.IH)
  also have "\<dots> =
          (no_double_sep (a # xs) \<and> no_double_sep ys \<and>
           (a # xs = [] \<or> ys = [] \<or> last (a # xs) \<noteq> CHR ''/'' \<or> hd ys \<noteq> CHR ''/''))"
    by (cases xs) (auto simp add: no_double_sep_Cons)
  finally show ?case .
qed

lemma no_double_sep_free: "CHR ''/'' \<notin> set s \<Longrightarrow> no_double_sep s"
  by (induction s rule: no_double_sep.induct) auto

lemma no_double_sep_take: "no_double_sep s \<Longrightarrow> no_double_sep (take n s)"
proof -
  assume "no_double_sep s"
  then have "no_double_sep (take n s @ drop n s)" by simp
  then show ?thesis unfolding no_double_sep_append by blast
qed

lemma lastIndexOf_range: "lastIndexOf s c < int (length s) \<and> - 1 \<le> lastIndexOf s c"
  by (induction s) auto

lemma lastIndexOf_nth:
  "0 \<le> lastIndexOf s c \<Longrightarrow> s ! nat (lastIndexOf s c) = c"
proof (induction s)
  case Nil
  then show ?case by simp
next
  case (Cons x s)
  show ?case
  proof (cases "0 \<le> lastIndexOf s c")
    case True
    with Cons.IH have "s ! nat (lastIndexOf s c) = c" by simp
    with True show ?thesis by (simp add: nat_add_distrib)
  next
    case False
    with Cons.prems show ?thesis by (simp split: if_splits)
  qed
qed

lemma tidy_take_lastIndexOf:
  assumes "tidy r" and "0 \<le> lastIndexOf r (CHR ''/'')"
  shows "tidy (take (nat (lastIndexOf r (CHR ''/''))) r)"
proof -
  let ?k = "nat (lastIndexOf r (CHR ''/''))"
  from assms(2) lastIndexOf_range [of r "CHR ''/''"] have k: "?k < length r" by simp
  from lastIndexOf_nth [OF assms(2)] have at: "r ! ?k = CHR ''/''" .
  from k have ne: "r \<noteq> []" by auto
  with assms(1) have hd: "hd r \<noteq> CHR ''/''" and nd: "no_double_sep r"
    unfolding tidy_def by simp_all
  show ?thesis
  proof (cases "?k = 0")
    case True
    then show ?thesis by (simp add: tidy_def)
  next
    case False
    have split: "r = take ?k r @ drop ?k r" by simp
    from k have dr: "drop ?k r \<noteq> []" by simp
    from k at have hdd: "hd (drop ?k r) = CHR ''/''" by (simp add: hd_drop_conv_nth)
    from False k have tk: "take ?k r \<noteq> []" by auto
    from nd have "no_double_sep (take ?k r @ drop ?k r)" by simp
    with tk dr hdd have "last (take ?k r) \<noteq> CHR ''/''" and "no_double_sep (take ?k r)"
      unfolding no_double_sep_append by auto
    moreover from False hd ne have "hd (take ?k r) \<noteq> CHR ''/''"
      by (cases r) (auto simp add: take_Cons' )
    ultimately show ?thesis by (simp add: tidy_def)
  qed
qed


lemma tidy_Nil: "tidy []"
  by (simp add: tidy_def)

lemma segment_ends:
  assumes "g \<noteq> []" and "CHR ''/'' \<notin> set g"
  shows "hd g \<noteq> CHR ''/''" and "last g \<noteq> CHR ''/''"
proof -
  from assms(1) have "hd g \<in> set g" and "last g \<in> set g" by simp_all
  with assms(2) show "hd g \<noteq> CHR ''/''" and "last g \<noteq> CHR ''/''" by metis+
qed

lemma tidy_segment: "CHR ''/'' \<notin> set g \<Longrightarrow> tidy g"
  unfolding tidy_def using segment_ends [of g] by (auto simp add: no_double_sep_free)

lemma tidy_extend:
  assumes "tidy r" and "r \<noteq> []" and "g \<noteq> []" and "CHR ''/'' \<notin> set g"
  shows "tidy (r @ ''/'' @ g)"
proof -
  from segment_ends [OF assms(3,4)] assms(4)
  have g: "hd g \<noteq> CHR ''/''" "last g \<noteq> CHR ''/''" "no_double_sep g"
    by (simp_all add: no_double_sep_free)
  from assms(3) g have sg: "no_double_sep (''/'' @ g)"
    by (cases g) (simp_all add: no_double_sep_Cons)
  from assms(1,2) have r: "hd r \<noteq> CHR ''/''" "last r \<noteq> CHR ''/''" "no_double_sep r"
    unfolding tidy_def by simp_all
  with sg assms(2) have "no_double_sep (r @ ''/'' @ g)"
    unfolding no_double_sep_append [of r] by simp
  with r g assms(2,3) show ?thesis
    by (simp add: tidy_def)
qed

lemma scan_inv_next_segment:
  "tidy (res s) \<Longrightarrow> scan_inv (next_segment s)"
  by (simp add: scan_inv_def next_segment_def)

lemma scan_inv_on_separator:
  assumes "scan_inv s"
  shows "scan_inv (on_separator up_ok s)"
proof -
  from assms have r: "tidy (res s)" and g: "CHR ''/'' \<notin> set (seg s)"
    unfolding scan_inv_def by simp_all
  have up: "res s \<noteq> [] \<Longrightarrow> tidy (res s @ ''/..'')"
    using tidy_extend [OF r, of "''..''"] by simp
  have up0: "tidy ''..''"
    by (simp add: tidy_def)
  have cut: "lastIndexOf (res s) (CHR ''/'') \<noteq> - 1 \<Longrightarrow>
               tidy (take (nat (lastIndexOf (res s) (CHR ''/''))) (res s))"
    using tidy_take_lastIndexOf [OF r] lastIndexOf_range [of "res s" "CHR ''/''"] by simp
  have ext: "res s \<noteq> [] \<Longrightarrow> seg s \<noteq> [] \<Longrightarrow> tidy (res s @ ''/'' @ seg s)"
    using tidy_extend [OF r _ _ g] by simp
  have own: "tidy (seg s)"
    using g by (rule tidy_segment)
  show ?thesis
    unfolding on_separator_def Let_def
    using r up up0 cut ext own
    by (auto intro!: scan_inv_next_segment simp add: tidy_Nil)
qed

lemma scan_inv_on_char:
  "scan_inv s \<Longrightarrow> scan_inv (on_char up_ok s c)"
  unfolding on_char_def
  by (auto simp add: scan_inv_on_separator) (simp_all add: scan_inv_def)

lemma scan_inv_scan:
  "scan_inv s \<Longrightarrow> scan_inv (scan up_ok s cs)"
  by (induction cs arbitrary: s) (simp_all add: scan_inv_on_char)

lemma tidy_normalizeString: "tidy (normalizeString path up_ok)"
proof -
  have "scan_inv norm_init"
    by (simp add: scan_inv_def norm_init_def tidy_Nil)
  then have inv: "scan_inv (scan up_ok norm_init path)"
    by (rule scan_inv_scan)
  then have "scan_inv (on_separator up_ok (scan up_ok norm_init path))"
    by (rule scan_inv_on_separator)
  with inv show ?thesis
    by (simp add: normalizeString_def Let_def scan_inv_def)
qed

lemma posix_normalize_cases:
  assumes "path \<noteq> []"
  obtains p where "tidy p"
    and "posix_normalize path =
           (if p = [] then
              (if hd path = CHR ''/'' then ''/''
               else if last path = CHR ''/'' then ''./'' else ''.'')
            else (if hd path = CHR ''/'' then ''/'' else []) @ p @
                 (if last path = CHR ''/'' then ''/'' else []))"
proof
  show "tidy (normalizeString path (hd path \<noteq> CHR ''/''))"
    by (rule tidy_normalizeString)
  from assms
  show "posix_normalize path =
           (if normalizeString path (hd path \<noteq> CHR ''/'') = [] then
              (if hd path = CHR ''/'' then ''/''
               else if last path = CHR ''/'' then ''./'' else ''.'')
            else (if hd path = CHR ''/'' then ''/'' else []) @
                 normalizeString path (hd path \<noteq> CHR ''/'') @
                 (if last path = CHR ''/'' then ''/'' else []))"
    by (simp add: posix_normalize_def Let_def)
qed

lemma posix_normalize_no_double_sep: "no_double_sep (posix_normalize path)"
proof (cases "path = []")
  case True
  then show ?thesis by (simp add: posix_normalize_def)
next
  case False
  from posix_normalize_cases [OF False] obtain p where t: "tidy p"
    and eq: "posix_normalize path =
           (if p = [] then
              (if hd path = CHR ''/'' then ''/''
               else if last path = CHR ''/'' then ''./'' else ''.'')
            else (if hd path = CHR ''/'' then ''/'' else []) @ p @
                 (if last path = CHR ''/'' then ''/'' else []))"
    by blast
  show ?thesis
  proof (cases "p = []")
    case True
    then show ?thesis by (simp add: eq)
  next
    case False
    with t have p: "hd p \<noteq> CHR ''/''" "last p \<noteq> CHR ''/''" "no_double_sep p"
      unfolding tidy_def by simp_all
    with False show ?thesis
      by (simp add: eq no_double_sep_append no_double_sep_Cons)
  qed
qed

lemma posix_normalize_trailing:
  assumes "path \<noteq> []"
  shows "(last (posix_normalize path) = CHR ''/'') =
           (last path = CHR ''/'' \<or> posix_normalize path = ''/'')"
proof -
  from posix_normalize_cases [OF assms] obtain p where t: "tidy p"
    and eq: "posix_normalize path =
           (if p = [] then
              (if hd path = CHR ''/'' then ''/''
               else if last path = CHR ''/'' then ''./'' else ''.'')
            else (if hd path = CHR ''/'' then ''/'' else []) @ p @
                 (if last path = CHR ''/'' then ''/'' else []))"
    by blast
  show ?thesis
  proof (cases "p = []")
    case True
    then show ?thesis by (simp add: eq)
  next
    case False
    with t have p: "hd p \<noteq> CHR ''/''" "last p \<noteq> CHR ''/''"
      unfolding tidy_def by simp_all
    from False p have "p \<noteq> ''/''" by auto
    with p False show ?thesis
      by (auto simp add: eq)
  qed
qed


lemma nfs_mount_completes:
  assumes "osType target = LINUX"
  shows \<open>\<exists>bucket key w'.
           MountableNfs_mountToLinuxInstance this target mnt w =
             Completed ()
               (target\<lparr>target_userData :=
                  target_userData target @
                  [S3Download bucket key,
                   Command ''TMPDIR=$(mktemp -d)'',
                   Command ''pushd "$TMPDIR"'',
                   Command (''unzip /tmp/'' @ key),
                   Command (''bash ./mountNfs.sh '' @ fullHostname (nfs_filesystem this) @ '' '' @
                            location (mount (nfs_filesystem this)) @ '' '' @
                            posix_normalize (location mnt) @ '' '' @
                            mountOptionsStr (permissions mnt) (nfs_extraMountOptions this)),
                   Command ''popd'',
                   Command (''rm -f /tmp/'' @ key)]\<rparr>, w')\<close>
proof -
  let ?w1 = "allowTo (target_connections target) (fst (connections (nfs_filesystem this)))
               (snd (connections (nfs_filesystem this))) w"
  let ?found = "MountableNfs_mountAssetSingleton this ?w1"
  let ?w2 = "grantRead (fst ?found) (target_grantPrincipal target) (snd ?found)"
  let ?loc = "s3_location ?w2 (fst ?found)"
  show ?thesis
    by (intro exI [of _ "fst ?loc"] exI [of _ "snd ?loc"] exI [of _ ?w2])
       (simp add: assms MountableNfs_mountToLinuxInstance_def Let_def addCommands_def
          addS3DownloadCommand_def)
qed

lemma lustre_install_al2:
  "linuxDistribution this = AMAZON_LINUX_2 \<Longrightarrow>
     \<exists>install. getLustreClientInstallationCommands this = Inr install"
  by (simp add: getLustreClientInstallationCommands_def)

lemma lustre_mount_completes:
  assumes "osType target = LINUX" and "linuxDistribution this = AMAZON_LINUX_2"
  shows \<open>\<exists>bucket key install w'.
           MountableFsxLustre_mountToLinuxInstance this target mnt w =
             Completed ()
               (target\<lparr>target_userData :=
                  target_userData target @ [S3Download bucket key] @ map Command install @
                  [Command ''TMPDIR=$(mktemp -d)'',
                   Command ''pushd "$TMPDIR"'',
                   Command (''unzip /tmp/'' @ key),
                   Command (''bash ./mountFsxLustre.sh '' @ fileSystemId (lustre_filesystem this) @
                            '' '' @ posix_normalize (location mnt) @ '' '' @
                            mountName (lustre_filesystem this) @ '' '' @
                            mountOptionsStr (permissions mnt) (lustre_extraMountOptions this)),
                   Command ''popd'',
                   Command (''rm -f /tmp/'' @ key)]\<rparr>, w')\<close>
proof -
  from lustre_install_al2 [OF assms(2)] obtain install where
    install: "getLustreClientInstallationCommands this = Inr install" by blast
  let ?w1 = "allowTo (target_connections target) (fst (lustre_connections (lustre_filesystem this)))
               (snd (lustre_connections (lustre_filesystem this))) w"
  let ?found = "MountableFsxLustre_mountAssetSingleton this ?w1"
  let ?w2 = "grantRead (fst ?found) (target_grantPrincipal target) (snd ?found)"
  let ?loc = "s3_location ?w2 (fst ?found)"
  show ?thesis
    by (intro exI [of _ "fst ?loc"] exI [of _ "snd ?loc"] exI [of _ install] exI [of _ ?w2])
       (simp add: assms(1) install MountableFsxLustre_mountToLinuxInstance_def Let_def
          addCommands_def addS3DownloadCommand_def)
qed

lemma normalize_fs1: "posix_normalize ''/mnt/nfs/fs1/'' = ''/mnt/nfs/fs1/''"
  by (simp add: posix_normalize_def normalizeString_def on_char_def on_separator_def
      next_segment_def ends_with_dotdot_def norm_init_def Let_def)

lemma test_nfs_fields:
  "fullHostname test_nfs = ''hostname.zoneName'' \<and> location (mount test_nfs) = ''/mnt/nfs''"
proof -
  from test_constructor obtain inst rs' where
    built: "NfsInstance_constructor (\<lambda>s. s) ''NFS'' test_props [] = Completed inst rs'"
    by blast
  then have "test_nfs = inst" by (simp add: test_nfs_def)
  with constructor_fields [OF built] show ?thesis
    by (simp add: test_props_def)
qed

text \<open>
  C8, as stated: a trailing separator of the location is stripped before the path is
  interpolated. For the location \<open>/mnt/nfs/fs1/\<close> the invocation that the NFS mount
  appends still carries the trailing separator.
\<close>

theorem C8_trailing_separator_kept:
  "target_userData
     (fst (outcome_state
        (MountableNfs_mountToLinuxInstance
           \<lparr>nfs_scope = 10, nfs_filesystem = test_nfs, nfs_extraMountOptions = None\<rparr>
           linuxInstance
           \<lparr>location = ''/mnt/nfs/fs1/'', permissions = Some READWRITE\<rparr>
           empty_world))) ! 4 =
   Command ''bash ./mountNfs.sh hostname.zoneName /mnt/nfs /mnt/nfs/fs1/ rw''"
proof -
  have linux: "osType linuxInstance = LINUX" by (simp add: linuxInstance_def)
  from nfs_mount_completes [OF linux,
      of "\<lparr>nfs_scope = 10, nfs_filesystem = test_nfs, nfs_extraMountOptions = None\<rparr>"
         "\<lparr>location = ''/mnt/nfs/fs1/'', permissions = Some READWRITE\<rparr>" empty_world]
  obtain bucket key w' where
    \<open>MountableNfs_mountToLinuxInstance
           \<lparr>nfs_scope = 10, nfs_filesystem = test_nfs, nfs_extraMountOptions = None\<rparr>
           linuxInstance
           \<lparr>location = ''/mnt/nfs/fs1/'', permissions = Some READWRITE\<rparr>
           empty_world =
       Completed ()
         (linuxInstance\<lparr>target_userData :=
            target_userData linuxInstance @
            [S3Download bucket key,
             Command ''TMPDIR=$(mktemp -d)'',
             Command ''pushd "$TMPDIR"'',
             Command (''unzip /tmp/'' @ key),
             Command (''bash ./mountNfs.sh '' @ fullHostname test_nfs @ '' '' @
                      location (mount test_nfs) @ '' '' @
                      posix_normalize ''/mnt/nfs/fs1/'' @ '' '' @
                      mountOptionsStr (Some READWRITE) None),
             Command ''popd'',
             Command (''rm -f /tmp/'' @ key)]\<rparr>, w')\<close>
    by auto
  then show ?thesis
    by (simp add: linuxInstance_def test_nfs_fields normalize_fs1 mountOptionsStr_def
        mountOptions_def)
qed


text \<open>
  C8, amended: on a Linux target the local path in the invocation of the mount
  script (the NFS one, and the Lustre one for Amazon Linux 2) is
  \<open>path.posix.normalize\<close> of the caller's location. Redundant separators are
  collapsed: the normalised path never has two separators in a row. A trailing separator
  is kept: the normalised path of a non-empty location ends in a separator exactly when
  the location does or the path is the root.
\<close>

theorem C8_local_path_normalized:
  assumes "osType target = LINUX"
  shows \<open>(\<exists>bucket key w'.
            MountableNfs_mountToLinuxInstance nfs target mnt w =
              Completed ()
                (target\<lparr>target_userData :=
                   target_userData target @
                   [S3Download bucket key,
                    Command ''TMPDIR=$(mktemp -d)'',
                    Command ''pushd "$TMPDIR"'',
                    Command (''unzip /tmp/'' @ key),
                    Command (''bash ./mountNfs.sh '' @ fullHostname (nfs_filesystem nfs) @ '' '' @
                             location (mount (nfs_filesystem nfs)) @ '' '' @
                             posix_normalize (location mnt) @ '' '' @
                             mountOptionsStr (permissions mnt) (nfs_extraMountOptions nfs)),
                    Command ''popd'',
                    Command (''rm -f /tmp/'' @ key)]\<rparr>, w')) \<and>
         (linuxDistribution lustre = AMAZON_LINUX_2 \<longrightarrow>
            (\<exists>bucket key install w'.
               MountableFsxLustre_mountToLinuxInstance lustre target mnt w =
                 Completed ()
                   (target\<lparr>target_userData :=
                      target_userData target @ [S3Download bucket key] @ map Command install @
                      [Command ''TMPDIR=$(mktemp -d)'',
                       Command ''pushd "$TMPDIR"'',
                       Command (''unzip /tmp/'' @ key),
                       Command (''bash ./mountFsxLustre.sh '' @
                                fileSystemId (lustre_filesystem lustre) @ '' '' @
                                posix_normalize (location mnt) @ '' '' @
                                mountName (lustre_filesystem lustre) @ '' '' @
                                mountOptionsStr (permissions mnt) (lustre_extraMountOptions lustre)),
                       Command ''popd'',
                       Command (''rm -f /tmp/'' @ key)]\<rparr>, w'))) \<and>
         no_double_sep (posix_normalize (location mnt)) \<and>
         (location mnt \<noteq> [] \<longrightarrow>
            (last (posix_normalize (location mnt)) = CHR ''/'') =
              (last (location mnt) = CHR ''/'' \<or> posix_normalize (location mnt) = ''/''))\<close>
proof (intro conjI impI)
  show "no_double_sep (posix_normalize (location mnt))"
    by (rule posix_normalize_no_double_sep)
next
  assume "location mnt \<noteq> []"
  then show "(last (posix_normalize (location mnt)) = CHR ''/'') =
              (last (location mnt) = CHR ''/'' \<or> posix_normalize (location mnt) = ''/'')"
    by (rule posix_normalize_trailing)
next
  assume "linuxDistribution lustre = AMAZON_LINUX_2"
  from lustre_mount_completes [OF assms this]
  show \<open>\<exists>bucket key install w'.
               MountableFsxLustre_mountToLinuxInstance lustre target mnt w =
                 Completed ()
                   (target\<lparr>target_userData :=
                      target_userData target @ [S3Download bucket key] @ map Command install @
                      [Command ''TMPDIR=$(mktemp -d)'',
                       Command ''pushd "$TMPDIR"'',
                       Command (''unzip /tmp/'' @ key),
                       Command (''bash ./mountFsxLustre.sh '' @
                                fileSystemId (lustre_filesystem lustre) @ '' '' @
                                posix_normalize (location mnt) @ '' '' @
                                mountName (lustre_filesystem lustre) @ '' '' @
                                mountOptionsStr (permissions mnt) (lustre_extraMountOptions lustre)),
                       Command ''popd'',
                       Command (''rm -f /tmp/'' @ key)]\<rparr>, w')\<close> .
qed (rule nfs_mount_completes [OF assms])

lemma normalize_redundant: "posix_normalize ''/mnt//nfs/fs1/'' = ''/mnt/nfs/fs1/''"
  by (simp add: posix_normalize_def normalizeString_def on_char_def on_separator_def
      next_segment_def ends_with_dotdot_def norm_init_def Let_def)

theorem C8_redundant_separator_witness:
  \<open>(\<exists>bucket key w'.
      MountableNfs_mountToLinuxInstance
        \<lparr>nfs_scope = 10, nfs_filesystem = test_nfs, nfs_extraMountOptions = None\<rparr>
        linuxInstance \<lparr>location = ''/mnt//nfs/fs1/'', permissions = None\<rparr> empty_world =
      Completed ()
        (linuxInstance\<lparr>target_userData :=
           [S3Download bucket key,
            Command ''TMPDIR=$(mktemp -d)'',
            Command ''pushd "$TMPDIR"'',
            Command (''unzip /tmp/'' @ key),
            Command ''bash ./mountNfs.sh hostname.zoneName /mnt/nfs /mnt/nfs/fs1/ rw'',
            Command ''popd'',
            Command (''rm -f /tmp/'' @ key)]\<rparr>, w')) \<and>
   (\<exists>bucket key install w'.
      MountableFsxLustre_mountToLinuxInstance test_lustre
        linuxInstance \<lparr>location = ''/mnt//nfs/fs1/'', permissions = None\<rparr> empty_world =
      Completed ()
        (linuxInstance\<lparr>target_userData :=
           [S3Download bucket key] @ map Command install @
           [Command ''TMPDIR=$(mktemp -d)'',
            Command ''pushd "$TMPDIR"'',
            Command (''unzip /tmp/'' @ key),
            Command ''bash ./mountFsxLustre.sh fs-0123 /mnt/nfs/fs1/ fsx rw,noatime'',
            Command ''popd'',
            Command (''rm -f /tmp/'' @ key)]\<rparr>, w')) \<and>
   no_double_sep (posix_normalize ''/mnt//nfs/fs1/'') \<and>
   last (posix_normalize ''/mnt//nfs/fs1/'') = CHR ''/''\<close>
proof -
  have linux: "osType linuxInstance = LINUX" by (simp add: linuxInstance_def)
  have al2: "linuxDistribution test_lustre = AMAZON_LINUX_2" by (simp add: test_lustre_def)
  have fresh: "target_userData linuxInstance = []" by (simp add: linuxInstance_def)
  have opts: "mountOptionsStr None None = ''rw''" "mountOptionsStr None (Some [''noatime'']) = ''rw,noatime''"
    by (simp_all add: mountOptionsStr_def mountOptions_def)
  note fact = C8_local_path_normalized [OF linux,
      where mnt = "\<lparr>location = ''/mnt//nfs/fs1/'', permissions = None\<rparr>"
        and nfs = "\<lparr>nfs_scope = 10, nfs_filesystem = test_nfs, nfs_extraMountOptions = None\<rparr>"
        and lustre = test_lustre and w = empty_world]
  from fact have 1: \<open>\<exists>bucket key w'.
      MountableNfs_mountToLinuxInstance
        \<lparr>nfs_scope = 10, nfs_filesystem = test_nfs, nfs_extraMountOptions = None\<rparr>
        linuxInstance \<lparr>location = ''/mnt//nfs/fs1/'', permissions = None\<rparr> empty_world =
      Completed ()
        (linuxInstance\<lparr>target_userData :=
           [S3Download bucket key,
            Command ''TMPDIR=$(mktemp -d)'',
            Command ''pushd "$TMPDIR"'',
            Command (''unzip /tmp/'' @ key),
            Command ''bash ./mountNfs.sh hostname.zoneName /mnt/nfs /mnt/nfs/fs1/ rw'',
            Command ''popd'',
            Command (''rm -f /tmp/'' @ key)]\<rparr>, w')\<close>
    by (simp add: fresh test_nfs_fields normalize_redundant opts)
  from fact al2 have 2: \<open>\<exists>bucket key install w'.
      MountableFsxLustre_mountToLinuxInstance test_lustre
        linuxInstance \<lparr>location = ''/mnt//nfs/fs1/'', permissions = None\<rparr> empty_world =
      Completed ()
        (linuxInstance\<lparr>target_userData :=
           [S3Download bucket key] @ map Command install @
           [Command ''TMPDIR=$(mktemp -d)'',
            Command ''pushd "$TMPDIR"'',
            Command (''unzip /tmp/'' @ key),
            Command ''bash ./mountFsxLustre.sh fs-0123 /mnt/nfs/fs1/ fsx rw,noatime'',
            Command ''popd'',
            Command (''rm -f /tmp/'' @ key)]\<rparr>, w')\<close>
    by (simp add: fresh normalize_redundant opts test_lustre_def)
  from fact have 3: "no_double_sep (posix_normalize ''/mnt//nfs/fs1/'')"
    by simp
  from fact have 4: "last (posix_normalize ''/mnt//nfs/fs1/'') = CHR ''/''"
    by simp
  from 1 2 3 4 show ?thesis by blast
qed

end
